theory Spec2Isabelle
  imports Complex_Main "HOL-Library.Sublist"
begin

section \<open>Text and errors\<close>

text \<open>
  The module \<^verbatim>\<open>extract_pdfdata\<close> defines one class, \<^verbatim>\<open>EllipMap\<close>.  Its constructor
  concatenates the text of all pages of a PDF report into one string \<^verbatim>\<open>all_content\<close>
  and extracts the scan statistics from that string with five regular expressions; the
  method \<^verbatim>\<open>interp_grid\<close> interpolates the samples on a mesh.  The PDF reader is outside
  the model: the constructor is modelled as a function of \<^verbatim>\<open>all_content\<close>.

  A Python \<^verbatim>\<open>str\<close> is modelled by \<^typ>\<open>string\<close>, a list of 8-bit characters that are read
  as the code points 0 to 255.  Every exception the code can raise is a value of the type
  \<open>error\<close>, named after the Python exception and the place that raises it.
\<close>

datatype error =
    AttributeError string
      \<comment> \<open>\<^verbatim>\<open>re.search(...)\<close> returned \<^verbatim>\<open>None\<close>, so \<^verbatim>\<open>.group(1)\<close> raised; the argument is the
          label of the pattern that was searched for\<close>
  | ValueError_float string
      \<comment> \<open>\<^verbatim>\<open>float(s)\<close> or \<^verbatim>\<open>astype(float)\<close>: could not convert the string to float\<close>
  | ValueError_interp
      \<comment> \<open>\<^verbatim>\<open>np.interp\<close>: array of sample points is empty, or of another length than the values\<close>
  | ValueError_broadcast
      \<comment> \<open>operands could not be broadcast together\<close>
  | RBFError
      \<comment> \<open>any exception of the constructor of \<^verbatim>\<open>scipy.interpolate.RBFInterpolator\<close>\<close>
  | ValueError_empty
      \<comment> \<open>\<^verbatim>\<open>min()\<close> or \<^verbatim>\<open>max()\<close> of an empty sequence\<close>
  | ValueError_linspace int
      \<comment> \<open>\<^verbatim>\<open>np.linspace\<close>: number of samples must be non-negative\<close>

section \<open>The regular expressions\<close>

text \<open>
  The five patterns use four constructs of Python's \<^verbatim>\<open>re\<close>: a literal, the greedy \<^verbatim>\<open>\s*\<close>, the
  lazy capture group \<^verbatim>\<open>(.*?)\<close> and a single \<^verbatim>\<open>\s\<close>, with one top-level alternation.  Each
  construct is a matcher in continuation-passing style that tries its alternatives in the
  order of Python's backtracking engine: \<^verbatim>\<open>\s*\<close> the longest run first, \<^verbatim>\<open>(.*?)\<close> the
  shortest capture first.  A successful match returns the text captured by group 1 and the
  text that follows the match.

  \<^verbatim>\<open>\s\<close> matches the characters for which \<^verbatim>\<open>str.isspace\<close> holds (below code point 256: 9 to
  13, 28 to 32, 133 and 160); \<^verbatim>\<open>.\<close> matches every character but the line feed.
\<close>

definition is_space :: "char \<Rightarrow> bool" where
  "is_space c =
     (let n = (of_char c :: nat)
      in (9 \<le> n \<and> n \<le> 13) \<or> (28 \<le> n \<and> n \<le> 32) \<or> n = 133 \<or> n = 160)"

definition is_dot :: "char \<Rightarrow> bool" where
  "is_dot c = (c \<noteq> CHR 0x0A)"

fun lit :: "string \<Rightarrow> (string \<Rightarrow> 'r option) \<Rightarrow> string \<Rightarrow> 'r option" where
  "lit [] k s = k s"
| "lit (c # cs) k [] = None"
| "lit (c # cs) k (d # ds) = (if c = d then lit cs k ds else None)"

fun space_star :: "(string \<Rightarrow> 'r option) \<Rightarrow> string \<Rightarrow> 'r option" where
  "space_star k [] = k []"
| "space_star k (c # cs) =
     (if is_space c
      then (case space_star k cs of Some r \<Rightarrow> Some r | None \<Rightarrow> k (c # cs))
      else k (c # cs))"

fun space1 :: "(string \<Rightarrow> 'r option) \<Rightarrow> string \<Rightarrow> 'r option" where
  "space1 k [] = None"
| "space1 k (c # cs) = (if is_space c then k cs else None)"

fun lazy_group :: "(string \<Rightarrow> string \<Rightarrow> 'r option) \<Rightarrow> string \<Rightarrow> string \<Rightarrow> 'r option" where
  "lazy_group k acc [] = k acc []"
| "lazy_group k acc (c # cs) =
     (case k acc (c # cs) of
        Some r \<Rightarrow> Some r
      | None \<Rightarrow> if is_dot c then lazy_group k (acc @ [c]) cs else None)"

definition matched :: "string \<Rightarrow> string \<Rightarrow> (string \<times> string) option" where
  "matched cap rest = Some (cap, rest)"

type_synonym pattern = "string \<Rightarrow> (string \<times> string) option"

text \<open>\<^verbatim>\<open>label\s*(.*?)\s\<close>, the shape of \<^verbatim>\<open>patt_stddev\<close> and \<^verbatim>\<open>patt_mean\<close>.\<close>

definition scalar_pattern :: "string \<Rightarrow> pattern" where
  "scalar_pattern label =
     lit label (space_star (lazy_group (\<lambda>cap. space1 (matched cap)) []))"

text \<open>\<^verbatim>\<open>label\s*(.*?),\<close>, the shape of \<^verbatim>\<open>patt_rad\<close>, \<^verbatim>\<open>patt_theta\<close> and of the first
  alternative of \<^verbatim>\<open>patt_thick\<close>.\<close>

definition series_pattern :: "string \<Rightarrow> pattern" where
  "series_pattern label =
     lit label (space_star (lazy_group (\<lambda>cap. lit '','' (matched cap)) []))"

definition patt_stddev :: pattern where
  "patt_stddev = scalar_pattern ''StdDev''"

definition patt_mean :: pattern where
  "patt_mean = scalar_pattern ''Mean''"

definition patt_rad :: pattern where
  "patt_rad = series_pattern ''R=''"

definition patt_theta :: pattern where
  "patt_theta = series_pattern ''Theta=''"

text \<open>
  \<^verbatim>\<open>Thick1=\s*(.*?),|No Soution\<close>: the second alternative is the literal of the source,
  spelled as the source spells it.  When it matches, group 1 takes no part in the match and
  \<^verbatim>\<open>re.findall\<close> reports the empty string for it.
\<close>

definition patt_thick :: pattern where
  "patt_thick s =
     (case series_pattern ''Thick1='' s of
        Some r \<Rightarrow> Some r
      | None \<Rightarrow> lit ''No Soution'' (matched []) s)"

text \<open>
  \<^verbatim>\<open>re.search(p, s)\<close> tries the pattern at every position from the left, the end of the
  text included, and \<^verbatim>\<open>.group(1)\<close> of the first match is returned; \<open>None\<close> is Python's
  \<^verbatim>\<open>None\<close>.
\<close>

fun re_search :: "pattern \<Rightarrow> string \<Rightarrow> string option" where
  "re_search p [] = map_option fst (p [])"
| "re_search p (c # cs) =
     (case p (c # cs) of Some (cap, rest) \<Rightarrow> Some cap | None \<Rightarrow> re_search p cs)"

text \<open>
  \<^verbatim>\<open>re.findall(p, s)\<close> for a pattern with one group: the captures of all non-overlapping
  matches from left to right.  After a match the scan goes on where the match ended.  The
  patterns of this module consume at least their literal, so the branch for a match that
  consumed nothing (there the scan moves one character on) is never taken by them.
\<close>

function re_findall :: "pattern \<Rightarrow> string \<Rightarrow> string list" where
  "re_findall p s =
     (case p s of
        Some (cap, rest) \<Rightarrow>
          if length rest < length s then cap # re_findall p rest
          else (case s of [] \<Rightarrow> [cap] | c # cs \<Rightarrow> cap # re_findall p cs)
      | None \<Rightarrow> (case s of [] \<Rightarrow> [] | c # cs \<Rightarrow> re_findall p cs))"
  by pat_completeness auto
termination
  by (relation "measure (\<lambda>(p, s). length s)") auto

section \<open>Floating-point values and the numpy operations\<close>

text \<open>
  A float is modelled as a real number or NaN: \<open>Some r\<close> is the number \<open>r\<close> and \<open>None\<close> is
  NaN, the value that marks a missing thickness.  Arithmetic is exact and propagates NaN;
  rounding, overflow and the infinities of IEEE arithmetic are outside the model.
\<close>

type_synonym npfloat = "real option"

definition np_isnan :: "npfloat \<Rightarrow> bool" where
  "np_isnan v = (v = None)"

definition fl1 :: "(real \<Rightarrow> real) \<Rightarrow> npfloat \<Rightarrow> npfloat" where
  "fl1 f a = (case a of None \<Rightarrow> None | Some x \<Rightarrow> Some (f x))"

definition fl2 :: "(real \<Rightarrow> real \<Rightarrow> real) \<Rightarrow> npfloat \<Rightarrow> npfloat \<Rightarrow> npfloat" where
  "fl2 f a b =
     (case a of None \<Rightarrow> None
      | Some x \<Rightarrow> (case b of None \<Rightarrow> None | Some y \<Rightarrow> Some (f x y)))"

text \<open>\<^verbatim>\<open>np.radians\<close>: degrees to radians.\<close>

definition np_radians :: "npfloat \<Rightarrow> npfloat" where
  "np_radians = fl1 (\<lambda>d. d * pi / 180)"

text \<open>
  \<^verbatim>\<open>np.array\<close> of a non-empty list of strings has a fixed-width string type whose width is
  the greatest length in the list, and at least 1.  An element that is read back has lost
  its trailing NUL characters.
\<close>

definition np_str_width :: "string list \<Rightarrow> nat" where
  "np_str_width ms = max 1 (fold max (map length ms) 0)"

definition np_str :: "string \<Rightarrow> string" where
  "np_str s = rev (dropWhile (\<lambda>c. c = CHR 0x00) (rev s))"

text \<open>
  \<^verbatim>\<open>a[a == ''] = np.nan\<close> on such an array stores the text \<^verbatim>\<open>nan\<close> cut to the array's
  width in every element that reads as the empty string.  On the array of the empty list
  (which has a float type) it changes nothing.
\<close>

definition nan_fill :: "string list \<Rightarrow> string list" where
  "nan_fill ms =
     map (\<lambda>s. if np_str s = [] then take (np_str_width ms) ''nan'' else np_str s) ms"

text \<open>
  \<^verbatim>\<open>np.array(ms).astype(float)\<close>: the elements are converted in order and the first one
  that is no float raises.  The conversion of one string is a parameter \<open>cast\<close> of the
  model (\<open>None\<close>: the string is rejected), as is Python's \<^verbatim>\<open>float\<close> below.
\<close>

fun astype_float :: "(string \<Rightarrow> npfloat option) \<Rightarrow> string list \<Rightarrow> error + npfloat list" where
  "astype_float cast [] = Inr []"
| "astype_float cast (s # ss) =
     (case cast s of
        None \<Rightarrow> Inl (ValueError_float s)
      | Some v \<Rightarrow> (case astype_float cast ss of Inl e \<Rightarrow> Inl e | Inr vs \<Rightarrow> Inr (v # vs)))"

text \<open>\<^verbatim>\<open>np.flatnonzero(m)\<close>: the indices of the true entries, ascending.\<close>

definition flatnonzero :: "bool list \<Rightarrow> nat list" where
  "flatnonzero m = filter (\<lambda>i. m ! i) [0..<length m]"

text \<open>\<^verbatim>\<open>a[m]\<close> for a boolean mask \<open>m\<close> of the length of \<open>a\<close>: the entries at the true positions.\<close>

definition mask_get :: "'a list \<Rightarrow> bool list \<Rightarrow> 'a list" where
  "mask_get a m = map (\<lambda>i. a ! i) (flatnonzero m)"

text \<open>\<^verbatim>\<open>a[m] = vs\<close>: the k-th value is written to the k-th true position.\<close>

definition mask_set :: "'a list \<Rightarrow> bool list \<Rightarrow> 'a list \<Rightarrow> 'a list" where
  "mask_set a m vs = fold (\<lambda>(i, v) b. b[i := v]) (zip (flatnonzero m) vs) a"

text \<open>
  \<^verbatim>\<open>np.interp(x, xp, fp)\<close>, one-dimensional piecewise linear interpolation through the
  points \<open>(xp, fp)\<close> with \<open>xp\<close> increasing.  A query right of the last sample point takes
  the last value, a query left of the first takes the first.  Otherwise \<open>j\<close> is the index
  of the last sample point that is not greater than the query (numpy finds it by binary
  search), and the value is \<open>fp[j]\<close> at a sample point and
  \<open>slope * (x - xp[j]) + fp[j]\<close> between two.
\<close>

definition interp_index :: "real list \<Rightarrow> real \<Rightarrow> nat" where
  "interp_index xp x = length (takeWhile (\<lambda>p. p \<le> x) xp) - 1"

definition interp_one :: "real list \<Rightarrow> npfloat list \<Rightarrow> real \<Rightarrow> npfloat" where
  "interp_one xp fp x =
     (let n = length xp in
      if x > xp ! (n - 1) then fp ! (n - 1)
      else if x < xp ! 0 then fp ! 0
      else
        let j = interp_index xp x in
        if j = n - 1 then fp ! j
        else if xp ! j = x then fp ! j
        else
          let slope = fl2 (/) (fl2 (-) (fp ! (j + 1)) (fp ! j)) (Some (xp ! (j + 1) - xp ! j))
          in fl2 (+) (fl2 (*) slope (Some (x - xp ! j))) (fp ! j))"

definition np_interp :: "real list \<Rightarrow> real list \<Rightarrow> npfloat list \<Rightarrow> error + npfloat list" where
  "np_interp x xp fp =
     (if xp = [] \<or> length fp \<noteq> length xp then Inl ValueError_interp
      else Inr (map (interp_one xp fp) x))"

section \<open>The constructor of EllipMap\<close>

record EllipMap =
  stddev :: npfloat
  mean :: npfloat
  rad_arr :: "npfloat list"
  theta_arr :: "npfloat list"
  thick_arr :: "npfloat list"

text \<open>
  Lines 110 to 114: the NaN entries of the thickness array are replaced by the values
  that \<^verbatim>\<open>np.interp\<close> gives at their indices, from the indices and values of the other
  entries.
\<close>

definition repair_nan :: "npfloat list \<Rightarrow> error + npfloat list" where
  "repair_nan thick =
     (let mask = map np_isnan thick;
          unmask = map Not mask
      in case np_interp (map real (flatnonzero mask)) (map real (flatnonzero unmask))
                (mask_get thick unmask) of
           Inl e \<Rightarrow> Inl e
         | Inr vs \<Rightarrow> Inr (mask_set thick mask vs))"

text \<open>\<^verbatim>\<open>float(re.search(patt, all_content).group(1))\<close>, lines 89 and 90.\<close>

definition search_float ::
  "(string \<Rightarrow> npfloat option) \<Rightarrow> string \<Rightarrow> pattern \<Rightarrow> string \<Rightarrow> error + npfloat" where
  "search_float pyfloat label p all_content =
     (case re_search p all_content of
        None \<Rightarrow> Inl (AttributeError label)
      | Some g \<Rightarrow> (case pyfloat g of None \<Rightarrow> Inl (ValueError_float g) | Some v \<Rightarrow> Inr v))"

text \<open>Lines 99 to 100 and 109: the thickness captures as floats, NaN where a capture is empty.\<close>

definition thick_floats :: "(string \<Rightarrow> npfloat option) \<Rightarrow> string \<Rightarrow> error + npfloat list" where
  "thick_floats cast all_content =
     astype_float cast (nan_fill (re_findall patt_thick all_content))"

text \<open>
  The constructor from line 78 on, in the order of the source: the two scalars, the three
  lists of captures, the conversion of each list, and the repair of the thickness array.
  \<open>pyfloat\<close> is Python's \<^verbatim>\<open>float\<close> on a string and \<open>cast\<close> numpy's conversion of a string
  element.
\<close>

definition EllipMap_init ::
  "(string \<Rightarrow> npfloat option) \<Rightarrow> (string \<Rightarrow> npfloat option) \<Rightarrow> string \<Rightarrow> error + EllipMap" where
  "EllipMap_init pyfloat cast all_content =
     (case search_float pyfloat ''StdDev'' patt_stddev all_content of
        Inl e \<Rightarrow> Inl e
      | Inr sd \<Rightarrow>
     (case search_float pyfloat ''Mean'' patt_mean all_content of
        Inl e \<Rightarrow> Inl e
      | Inr mn \<Rightarrow>
     (case astype_float cast (map np_str (re_findall patt_rad all_content)) of
        Inl e \<Rightarrow> Inl e
      | Inr rad \<Rightarrow>
     (case astype_float cast (map np_str (re_findall patt_theta all_content)) of
        Inl e \<Rightarrow> Inl e
      | Inr theta \<Rightarrow>
     (case thick_floats cast all_content of
        Inl e \<Rightarrow> Inl e
      | Inr thick \<Rightarrow>
     (case repair_nan thick of
        Inl e \<Rightarrow> Inl e
      | Inr thick' \<Rightarrow>
          Inr \<lparr>stddev = sd, mean = mn, rad_arr = rad,
               theta_arr = map np_radians theta, thick_arr = thick'\<rparr>))))))"

text \<open>
  A float syntax to run the constructor on concrete texts: an optional sign and a decimal
  literal with an optional fraction, or the text \<^verbatim>\<open>nan\<close>.  Python's \<^verbatim>\<open>float\<close> and numpy's
  conversion both read these strings so; the other strings they accept (exponents,
  infinities, blanks around the number) do not occur in the texts evaluated below.
\<close>

definition is_digit :: "char \<Rightarrow> bool" where
  "is_digit c = (let n = (of_char c :: nat) in 48 \<le> n \<and> n \<le> 57)"

definition digits_value :: "string \<Rightarrow> nat" where
  "digits_value ds = fold (\<lambda>c n. 10 * n + (of_char c - 48)) ds 0"

definition unsigned_decimal :: "string \<Rightarrow> real option" where
  "unsigned_decimal s =
     (let ip = takeWhile is_digit s; r = dropWhile is_digit s in
      case r of
        [] \<Rightarrow> if ip = [] then None else Some (real (digits_value ip))
      | c # fp \<Rightarrow>
          if c = CHR ''.'' \<and> list_all is_digit fp \<and> (ip \<noteq> [] \<or> fp \<noteq> [])
          then Some (real (digits_value ip) + real (digits_value fp) / 10 ^ length fp)
          else None)"

definition float_of_string :: "string \<Rightarrow> npfloat option" where
  "float_of_string s =
     (if s = ''nan'' then Some None
      else case s of
        [] \<Rightarrow> None
      | c # cs \<Rightarrow>
          if c = CHR ''-'' then map_option (\<lambda>v. Some (- v)) (unsigned_decimal cs)
          else if c = CHR ''+'' then map_option Some (unsigned_decimal cs)
          else map_option Some (unsigned_decimal s))"

section \<open>The method \<^verbatim>\<open>interp_grid\<close>\<close>

text \<open>
  \<^verbatim>\<open>a * b\<close> on two one-dimensional arrays: elementwise when the lengths agree, an array
  of length 1 is stretched to the length of the other, and any other pair of lengths
  raises.
\<close>

definition np_binop ::
  "(npfloat \<Rightarrow> npfloat \<Rightarrow> npfloat) \<Rightarrow> npfloat list \<Rightarrow> npfloat list \<Rightarrow> error + npfloat list" where
  "np_binop f xs ys =
     (if length xs = length ys then Inr (map2 f xs ys)
      else if length xs = 1 then Inr (map (f (hd xs)) ys)
      else if length ys = 1 then Inr (map (\<lambda>x. f x (hd ys)) xs)
      else Inl ValueError_broadcast)"

text \<open>
  Python's \<^verbatim>\<open>min\<close> and \<^verbatim>\<open>max\<close> on the elements of an array: the first element is the
  candidate, and a later element replaces it when it compares less (greater) than the
  candidate.  A comparison with NaN is false.
\<close>

definition fl_less :: "npfloat \<Rightarrow> npfloat \<Rightarrow> bool" where
  "fl_less a b =
     (case a of None \<Rightarrow> False
      | Some x \<Rightarrow> (case b of None \<Rightarrow> False | Some y \<Rightarrow> x < y))"

definition py_min :: "npfloat list \<Rightarrow> error + npfloat" where
  "py_min xs =
     (case xs of
        [] \<Rightarrow> Inl ValueError_empty
      | x # r \<Rightarrow> Inr (fold (\<lambda>v m. if fl_less v m then v else m) r x))"

definition py_max :: "npfloat list \<Rightarrow> error + npfloat" where
  "py_max xs =
     (case xs of
        [] \<Rightarrow> Inl ValueError_empty
      | x # r \<Rightarrow> Inr (fold (\<lambda>v m. if fl_less m v then v else m) r x))"

text \<open>
  \<^verbatim>\<open>np.linspace(start, stop, num)\<close>: a negative \<open>num\<close> raises; otherwise the \<open>num\<close> values
  \<open>i * step + start\<close> with \<open>step = (stop - start) / (num - 1)\<close>, the last of them set
  to \<open>stop\<close> when \<open>num > 1\<close>.  For \<open>num = 1\<close> there is no step and the one value is
  \<open>0 * (stop - start) + start\<close>.
\<close>

definition np_linspace :: "npfloat \<Rightarrow> npfloat \<Rightarrow> int \<Rightarrow> error + npfloat list" where
  "np_linspace start stop num =
     (if num < 0 then Inl (ValueError_linspace num)
      else
        let divisor = num - 1;
            delta = fl2 (-) stop start;
            y = map (\<lambda>i. Some (real i)) [0..<nat num];
            y1 = (if divisor > 0
                  then map (\<lambda>v. fl2 (*) v (fl2 (/) delta (Some (real_of_int divisor)))) y
                  else map (\<lambda>v. fl2 (*) v delta) y);
            y2 = map (\<lambda>v. fl2 (+) v start) y1
        in Inr (if num > 1 then y2[nat num - 1 := stop] else y2))"

text \<open>
  \<^verbatim>\<open>np.meshgrid(x_dense, y_dense)\<close>: two arrays of \<open>len(y_dense)\<close> rows and \<open>len(x_dense)\<close>
  columns; every row of the first is \<open>x_dense\<close>, row \<open>i\<close> of the second repeats
  \<open>y_dense[i]\<close>.  A two-dimensional array is the list of its rows.
\<close>

definition np_meshgrid :: "'a list \<Rightarrow> 'a list \<Rightarrow> 'a list list \<times> 'a list list" where
  "np_meshgrid xd yd =
     (replicate (length yd) xd, map (\<lambda>y. replicate (length xd) y) yd)"

text \<open>\<^verbatim>\<open>a.reshape((rows, cols))\<close> of a flat array of \<open>rows * cols\<close> elements.\<close>

definition np_reshape :: "nat \<Rightarrow> nat \<Rightarrow> 'a list \<Rightarrow> 'a list list" where
  "np_reshape rows cols flat = map (\<lambda>i. take cols (drop (i * cols) flat)) [0..<rows]"

text \<open>An elementwise operation on two two-dimensional arrays of one shape.\<close>

definition grid_map2 :: "('a \<Rightarrow> 'a \<Rightarrow> 'b) \<Rightarrow> 'a list list \<Rightarrow> 'a list list \<Rightarrow> 'b list list" where
  "grid_map2 f g h = map2 (map2 f) g h"

text \<open>
  \<^verbatim>\<open>np.sqrt(x**2 + y**2)\<close> and \<^verbatim>\<open>np.arctan2(y, x)\<close> on one pair of elements.  \<open>arctan2\<close> is
  the two-argument arctangent: the angle of the point \<open>(x, y)\<close>, and 0 at the origin.
\<close>

definition polar_r :: "npfloat \<Rightarrow> npfloat \<Rightarrow> npfloat" where
  "polar_r x y = fl1 sqrt (fl2 (+) (fl1 (\<lambda>v. v ^ 2) x) (fl1 (\<lambda>v. v ^ 2) y))"

definition arctan2 :: "real \<Rightarrow> real \<Rightarrow> real" where
  "arctan2 y x =
     (if x > 0 then arctan (y / x)
      else if x < 0 then (if y \<ge> 0 then arctan (y / x) + pi else arctan (y / x) - pi)
      else if y > 0 then pi / 2
      else if y < 0 then - pi / 2
      else 0)"

definition np_arctan2 :: "npfloat \<Rightarrow> npfloat \<Rightarrow> npfloat" where
  "np_arctan2 y x = fl2 arctan2 y x"

text \<open>Lines 141 and 142: the Cartesian coordinates of the samples.\<close>

definition cartesian :: "EllipMap \<Rightarrow> error + npfloat list \<times> npfloat list" where
  "cartesian m =
     (case np_binop (fl2 (*)) (rad_arr m) (map (fl1 cos) (theta_arr m)) of
        Inl e \<Rightarrow> Inl e
      | Inr x \<Rightarrow>
     (case np_binop (fl2 (*)) (rad_arr m) (map (fl1 sin) (theta_arr m)) of
        Inl e \<Rightarrow> Inl e
      | Inr y \<Rightarrow> Inr (x, y)))"

text \<open>Lines 154 and 155: one axis of the mesh.\<close>

definition dense_axis :: "npfloat list \<Rightarrow> int \<Rightarrow> error + npfloat list" where
  "dense_axis x ptnum =
     (case py_min x of
        Inl e \<Rightarrow> Inl e
      | Inr lo \<Rightarrow>
     (case py_max x of
        Inl e \<Rightarrow> Inl e
      | Inr hi \<Rightarrow> np_linspace lo hi ptnum))"

text \<open>
  \<^verbatim>\<open>scipy.interpolate.RBFInterpolator\<close> is a parameter \<open>fit\<close> of the model: from the paired
  sample coordinates and the sample values it gives the interpolant, a function of a
  point, or \<open>None\<close> when the constructor raises.  Calling the interpolant on an array of
  points evaluates it at each point.
\<close>

type_synonym rbf_fit =
  "(npfloat \<times> npfloat) list \<Rightarrow> npfloat list \<Rightarrow> (npfloat \<times> npfloat \<Rightarrow> npfloat) option"

definition interp_grid ::
  "rbf_fit \<Rightarrow> EllipMap \<Rightarrow> bool \<Rightarrow> int \<Rightarrow>
     error + npfloat list list \<times> npfloat list list \<times> npfloat list list" where
  "interp_grid fit m polar_coords ptnum =
     (case cartesian m of
        Inl e \<Rightarrow> Inl e
      | Inr (x, y) \<Rightarrow>
     (case fit (zip x y) (thick_arr m) of
        None \<Rightarrow> Inl RBFError
      | Some rbf \<Rightarrow>
     (case dense_axis x ptnum of
        Inl e \<Rightarrow> Inl e
      | Inr x_dense \<Rightarrow>
     (case dense_axis y ptnum of
        Inl e \<Rightarrow> Inl e
      | Inr y_dense \<Rightarrow>
          let (x_grid, y_grid) = np_meshgrid x_dense y_dense;
              grid_pairs = zip (concat x_grid) (concat y_grid);
              z_interp_flat = map rbf grid_pairs;
              z = np_reshape (length y_dense) (length x_dense) z_interp_flat
          in if polar_coords
             then Inr (grid_map2 polar_r x_grid y_grid, grid_map2 np_arctan2 y_grid x_grid, z)
             else Inr (x_grid, y_grid, z)))))"

text \<open>
  An interpolant to run \<open>interp_grid\<close> on concrete samples.  For exactly three samples
  that are not collinear the cubic interpolant of \<^verbatim>\<open>RBFInterpolator\<close>, whose polynomial part has
  degree 1, is the affine function through the samples: the side conditions of its linear
  system force the three kernel weights to 0.  For fewer than three samples, for three
  collinear ones and for values of another length the constructor raises.  \<open>rbf_fit_3\<close>
  is this case of the constructor; on more than three samples, which the texts evaluated
  below do not have, it is not a model of the constructor, and neither on NaN.
\<close>

fun rbf_fit_3 :: rbf_fit where
  "rbf_fit_3 [(Some x1, Some y1), (Some x2, Some y2), (Some x3, Some y3)]
             [Some d1, Some d2, Some d3] =
     (let det = (x2 - x1) * (y3 - y1) - (x3 - x1) * (y2 - y1) in
      if det = 0 then None
      else
        let a = ((d2 - d1) * (y3 - y1) - (d3 - d1) * (y2 - y1)) / det;
            b = ((x2 - x1) * (d3 - d1) - (x3 - x1) * (d2 - d1)) / det
        in Some (\<lambda>(qx, qy).
             fl2 (+) (Some d1)
               (fl2 (+) (fl2 (*) (Some a) (fl2 (-) qx (Some x1)))
                        (fl2 (*) (Some b) (fl2 (-) qy (Some y1))))))"
| "rbf_fit_3 ps ds = None"

text \<open>Notions used in the statements below.\<close>

definition has_shape :: "'a list list \<Rightarrow> nat \<Rightarrow> nat \<Rightarrow> bool" where
  "has_shape g rows cols = (length g = rows \<and> list_all (\<lambda>row. length row = cols) g)"

definition valid_idx :: "npfloat list \<Rightarrow> nat list" where
  "valid_idx t = filter (\<lambda>i. t ! i \<noteq> None) [0..<length t]"

definition fill :: "npfloat list \<Rightarrow> nat \<Rightarrow> npfloat" where
  "fill t i = interp_one (map real (valid_idx t)) (map (\<lambda>i. t ! i) (valid_idx t)) (real i)"

definition cart_x :: "real list \<Rightarrow> real list \<Rightarrow> real list" where
  "cart_x rs ts = map2 (\<lambda>r t. r * cos t) rs ts"

definition cart_y :: "real list \<Rightarrow> real list \<Rightarrow> real list" where
  "cart_y rs ts = map2 (\<lambda>r t. r * sin t) rs ts"

text \<open>Node \<open>j\<close> of \<open>n\<close> equally spaced nodes from the least to the greatest of \<open>xs\<close>.\<close>

definition axis_node :: "real list \<Rightarrow> nat \<Rightarrow> nat \<Rightarrow> npfloat" where
  "axis_node xs n j = Some (real j * ((Max (set xs) - Min (set xs)) / real (n - 1)) + Min (set xs))"

text \<open>
  Three samples, at the Cartesian points \<open>(0, 0)\<close>, \<open>(1, 0)\<close> and \<open>(0, 1)\<close>, to run
  \<open>interp_grid\<close> on.
\<close>

definition unit_samples :: EllipMap where
  "unit_samples =
     \<lparr>stddev = Some 1, mean = Some 7, rad_arr = [Some 0, Some 1, Some 1],
      theta_arr = [Some 0, Some 0, Some (pi / 2)], thick_arr = [Some 5, Some 8, Some 9]\<rparr>"

section \<open>The cubic radial-basis-function interpolant\<close>

text \<open>
  Modelled from the spec: the interpolant that \<^verbatim>\<open>scipy.interpolate.RBFInterpolator\<close> fits in
  line 150.  The library is not part of the source, which only calls it; the specification
  describes it in section 4.2, step 2, in its design notes and in its glossary.  The kernel
  is cubic: its value is the cube of the distance between two points.
\<close>

definition cubic_kernel :: "real \<Rightarrow> real" where
  "cubic_kernel r = r ^ 3"

text \<open>Modelled from the spec: the distance between two points of the plane, which the
  kernel is applied to.\<close>

definition point_dist :: "real \<times> real \<Rightarrow> real \<times> real \<Rightarrow> real" where
  "point_dist p q = sqrt ((fst p - fst q)\<^sup>2 + (snd p - snd q)\<^sup>2)"

text \<open>Modelled from the spec: the kernel matrix, which holds the kernel of the distance
  of every pair of samples.\<close>

definition kernel_matrix :: "(real \<times> real) list \<Rightarrow> real list list" where
  "kernel_matrix ps = map (\<lambda>p. map (\<lambda>q. cubic_kernel (point_dist p q)) ps) ps"

definition mat_vec :: "real list list \<Rightarrow> real list \<Rightarrow> real list" where
  "mat_vec A w = map (\<lambda>row. sum_list (map2 (*) row w)) A"

text \<open>Modelled from the spec: the weights of the fit, one for each sample, are a solution
  of the linear system of the kernel matrix with the sample values on the right.\<close>

definition rbf_weights :: "(real \<times> real) list \<Rightarrow> real list \<Rightarrow> real list \<Rightarrow> bool" where
  "rbf_weights ps ds w =
     (length w = length ps \<and> length ds = length ps \<and> mat_vec (kernel_matrix ps) w = ds)"

text \<open>Modelled from the spec: the interpolant at a query point is the sum of the kernels
  of the distances from the query point to the samples, weighted by the weights.\<close>

definition rbf_eval :: "(real \<times> real) list \<Rightarrow> real list \<Rightarrow> real \<times> real \<Rightarrow> real" where
  "rbf_eval ps w q = sum_list (map2 (\<lambda>wj p. wj * cubic_kernel (point_dist q p)) w ps)"

section \<open>The patterns consume what they match\<close>

text \<open>
  Every match of a pattern of this module is at least as long as the literal the pattern
  starts with, so the text that follows a match is shorter than the text matched against.
\<close>

lemma lit_consumes:
  assumes "\<And>s' c r. k s' = Some (c, r) \<Longrightarrow> length r \<le> length s'"
  shows "lit l k s = Some (c, r) \<Longrightarrow> length r + length l \<le> length s"
proof (induction l arbitrary: s)
  case Nil
  then show ?case using assms [of s c r] by simp
next
  case (Cons a l)
  then show ?case by (cases s) (auto split: if_splits)
qed

lemma space_star_consumes:
  assumes "\<And>s' c r. k s' = Some (c, r) \<Longrightarrow> length r \<le> length s'"
  shows "space_star k s = Some (c, r) \<Longrightarrow> length r \<le> length s"
proof (induction s)
  case Nil
  then show ?case using assms [of "[]" c r] by auto
next
  case (Cons a s)
  then show ?case using assms [of "a # s" c r]
    by (auto split: if_splits option.splits)
qed

lemma space1_consumes:
  assumes "\<And>s' c r. k s' = Some (c, r) \<Longrightarrow> length r \<le> length s'"
  shows "space1 k s = Some (c, r) \<Longrightarrow> length r \<le> length s"
  using assms [of "tl s" c r] by (cases s) (auto split: if_splits)

lemma lazy_group_consumes:
  assumes "\<And>acc s' c r. k acc s' = Some (c, r) \<Longrightarrow> length r \<le> length s'"
  shows "lazy_group k acc s = Some (c, r) \<Longrightarrow> length r \<le> length s"
proof (induction s arbitrary: acc)
  case Nil
  then show ?case using assms [of acc "[]" c r] by auto
next
  case (Cons a s)
  show ?case
  proof (cases "k acc (a # s)")
    case None
    then have "lazy_group k (acc @ [a]) s = Some (c, r)"
      using Cons.prems by (auto split: if_splits)
    from Cons.IH [OF this] show ?thesis by simp
  next
    case (Some p)
    then have "k acc (a # s) = Some (c, r)" using Cons.prems by simp
    then show ?thesis by (rule assms)
  qed
qed

lemma matched_consumes: "matched cap s' = Some (c, r) \<Longrightarrow> length r \<le> length s'"
  by (simp add: matched_def)

lemma scalar_pattern_consumes:
  assumes "scalar_pattern l s = Some (c, r)"
  shows "length r + length l \<le> length s"
  using assms unfolding scalar_pattern_def
  by (rule lit_consumes [rotated], elim space_star_consumes [rotated],
      elim lazy_group_consumes [rotated], elim space1_consumes [rotated],
      elim matched_consumes)

lemma series_pattern_consumes:
  assumes "series_pattern l s = Some (c, r)"
  shows "length r + length l \<le> length s"
  using assms unfolding series_pattern_def
proof (rule lit_consumes [rotated])
  fix s' c r
  assume "space_star (lazy_group (\<lambda>cap. lit '','' (matched cap)) []) s' = Some (c, r)"
  then show "length r \<le> length s'"
  proof (rule space_star_consumes [rotated])
    fix s' c r
    assume "lazy_group (\<lambda>cap. lit '','' (matched cap)) [] s' = Some (c, r)"
    then show "length r \<le> length s'"
    proof (rule lazy_group_consumes [rotated])
      fix acc s' c r
      assume "lit '','' (matched acc) s' = Some (c, r)"
      then have "length r + length '','' \<le> length s'"
        by (rule lit_consumes [rotated]) (rule matched_consumes)
      then show "length r \<le> length s'" by simp
    qed
  qed
qed

lemma patt_thick_consumes:
  assumes "patt_thick s = Some (c, r)"
  shows "length r < length s"
proof (cases "series_pattern ''Thick1='' s")
  case None
  then have "lit ''No Soution'' (matched []) s = Some (c, r)"
    using assms by (simp add: patt_thick_def)
  then have "length r + length ''No Soution'' \<le> length s"
    by (rule lit_consumes [rotated]) (rule matched_consumes)
  then show ?thesis by simp
next
  case (Some p)
  then have "series_pattern ''Thick1='' s = Some (c, r)"
    using assms by (simp add: patt_thick_def)
  from series_pattern_consumes [OF this] show ?thesis by simp
qed

lemma patterns_consume:
  "patt_rad s = Some (c, r) \<Longrightarrow> length r < length s"
  "patt_theta s = Some (c, r) \<Longrightarrow> length r < length s"
  "patt_thick s = Some (c, r) \<Longrightarrow> length r < length s"
  using series_pattern_consumes [of "''R=''" s c r] series_pattern_consumes [of "''Theta=''" s c r]
    patt_thick_consumes [of s c r]
  by (simp_all add: patt_rad_def patt_theta_def)

text \<open>
  So \<^verbatim>\<open>re.findall\<close> with a pattern of this module goes on, after a match, where the
  match ended.
\<close>

lemma re_findall_consuming:
  assumes "\<And>c r. p s = Some (c, r) \<Longrightarrow> length r < length s"
  shows "re_findall p s =
           (case p s of
              Some (cap, rest) \<Rightarrow> cap # re_findall p rest
            | None \<Rightarrow> (case s of [] \<Rightarrow> [] | c # cs \<Rightarrow> re_findall p cs))"
proof (cases "p s")
  case None
  then show ?thesis by (subst re_findall.simps) simp
next
  case (Some a)
  obtain c r where a: "a = (c, r)" by (cases a)
  have "length r < length s" using assms Some a by simp
  then show ?thesis using Some a by (subst re_findall.simps) simp
qed

section \<open>The repair of missing thickness values\<close>

text \<open>
  The index that \<open>interp_index\<close> finds by scanning from the left is the index of the
  bracketing interval, the one a binary search finds: on increasing sample points there is
  one such index only.
\<close>

lemma interp_index_bracket:
  assumes "sorted xp" "k + 1 < length xp" "xp ! k \<le> x" "x < xp ! (k + 1)"
  shows "interp_index xp x = k"
proof -
  have split: "xp = take (k + 1) xp @ drop (k + 1) xp" by simp
  have le: "\<And>p. p \<in> set (take (k + 1) xp) \<Longrightarrow> p \<le> x"
  proof -
    fix p assume "p \<in> set (take (k + 1) xp)"
    then obtain i where i: "i < k + 1" "p = xp ! i"
      using assms(2) by (auto simp: in_set_conv_nth)
    then have "xp ! i \<le> xp ! k" using assms(1,2) by (intro sorted_nth_mono) auto
    then show "p \<le> x" using i assms(3) by simp
  qed
  have "drop (k + 1) xp = xp ! (k + 1) # drop (k + 2) xp"
    using assms(2) by (simp add: Cons_nth_drop_Suc)
  then have "takeWhile (\<lambda>p. p \<le> x) (drop (k + 1) xp) = []" using assms(4) by simp
  moreover have "takeWhile (\<lambda>p. p \<le> x) (take (k + 1) xp @ drop (k + 1) xp)
      = take (k + 1) xp @ takeWhile (\<lambda>p. p \<le> x) (drop (k + 1) xp)"
    by (rule takeWhile_append2) (rule le)
  ultimately have "takeWhile (\<lambda>p. p \<le> x) xp = take (k + 1) xp"
    by (simp del: takeWhile_append2)
  then show ?thesis using assms(2) by (simp add: interp_index_def)
qed

lemma fold_update_length:
  "length (fold (\<lambda>(i, v) b. b[i := v]) ps a) = length a"
  by (induction ps arbitrary: a) auto

lemma fold_update_nth:
  "j < length a \<Longrightarrow>
   fold (\<lambda>(i, v) b. b[i := v]) (map (\<lambda>i. (i, g i)) M) a ! j =
     (if j \<in> set M then g j else a ! j)"
proof (induction M arbitrary: a)
  case Nil
  then show ?case by simp
next
  case (Cons m M)
  have "j < length (a[m := g m])" using Cons.prems by simp
  from Cons.IH [OF this] show ?case using Cons.prems
    by (auto simp: nth_list_update)
qed

lemma flatnonzero_map:
  "flatnonzero (map P xs) = filter (\<lambda>i. P (xs ! i)) [0..<length xs]"
  unfolding flatnonzero_def by (rule filter_cong) auto

lemma repair_nan_eq:
  assumes "valid_idx t \<noteq> []"
  shows "repair_nan t = Inr (map (\<lambda>i. if t ! i = None then fill t i else t ! i) [0..<length t])"
proof -
  let ?M = "filter (\<lambda>i. t ! i = None) [0..<length t]"
  have m: "flatnonzero (map np_isnan t) = ?M"
    by (simp add: flatnonzero_map np_isnan_def)
  have u: "flatnonzero (map Not (map np_isnan t)) = valid_idx t"
    unfolding valid_idx_def map_map flatnonzero_map by (simp add: np_isnan_def)
  have g: "mask_get t (map Not (map np_isnan t)) = map (\<lambda>i. t ! i) (valid_idx t)"
    unfolding mask_get_def u ..
  have i: "np_interp (map real ?M) (map real (valid_idx t)) (map (\<lambda>i. t ! i) (valid_idx t))
             = Inr (map (fill t) ?M)"
    using assms by (simp add: np_interp_def fill_def comp_def)
  have z: "zip ?M (map (fill t) ?M) = map (\<lambda>i. (i, fill t i)) ?M"
    by (simp add: zip_map2 zip_same_conv_map)
  have r: "repair_nan t = Inr (fold (\<lambda>(i, v) b. b[i := v]) (map (\<lambda>i. (i, fill t i)) ?M) t)"
    unfolding repair_nan_def Let_def m u g i mask_set_def by (simp add: z)
  show ?thesis unfolding r
    by (rule arg_cong [where f = Inr], rule nth_equalityI)
       (auto simp: fold_update_length fold_update_nth)
qed

lemma repair_nan_none:
  assumes "valid_idx t = []"
  shows "repair_nan t = Inl ValueError_interp"
proof -
  have u: "flatnonzero (map Not (map np_isnan t)) = []"
    using assms unfolding valid_idx_def map_map flatnonzero_map by (simp add: np_isnan_def)
  show ?thesis unfolding repair_nan_def Let_def u by (simp add: np_interp_def)
qed


lemma interp_one_not_nan:
  assumes "xp \<noteq> []" "length fp = length xp" "list_all (\<lambda>v. v \<noteq> None) fp"
  shows "interp_one xp fp x \<noteq> None"
proof -
  have nth: "\<And>k. k < length xp \<Longrightarrow> \<exists>v. fp ! k = Some v"
    using assms(2,3) by (auto simp: list_all_length)
  have n: "0 < length xp" using assms(1) by simp
  have j: "interp_index xp x \<le> length xp - 1"
    unfolding interp_index_def using length_takeWhile_le [of "\<lambda>p. p \<le> x" xp] by simp
  show ?thesis
  proof (cases "interp_index xp x = length xp - 1")
    case True
    then show ?thesis using nth [of "length xp - 1"] nth [of 0] n
      by (auto simp: interp_one_def Let_def)
  next
    case False
    then have "interp_index xp x + 1 < length xp" "interp_index xp x < length xp"
      using j n by auto
    then obtain a b where "fp ! (interp_index xp x) = Some a" "fp ! (interp_index xp x + 1) = Some b"
      using nth by blast
    then show ?thesis using nth [of "length xp - 1"] nth [of 0] n
      by (auto simp: interp_one_def Let_def fl2_def)
  qed
qed


lemma upt_split3:
  assumes "l < r" "r < n"
  shows "[0..<n] = [0..<l] @ l # [Suc l..<r] @ r # [Suc r..<n]"
proof -
  have "[0..<n] = [0..<l] @ [l..<n]"
    using assms upt_add_eq_append [of 0 l "n - l"] by simp
  also have "[l..<n] = l # [Suc l..<n]"
    using assms by (simp add: upt_conv_Cons)
  also have "[Suc l..<n] = [Suc l..<r] @ [r..<n]"
    using assms upt_add_eq_append [of "Suc l" r "n - r"] by simp
  also have "[r..<n] = r # [Suc r..<n]"
    using assms by (simp add: upt_conv_Cons)
  finally show ?thesis .
qed

lemma upt_split2:
  assumes "r < n"
  shows "[0..<n] = [0..<r] @ r # [Suc r..<n]"
proof -
  have "[0..<n] = [0..<r] @ [r..<n]"
    using assms upt_add_eq_append [of 0 r "n - r"] by simp
  also have "[r..<n] = r # [Suc r..<n]"
    using assms by (simp add: upt_conv_Cons)
  finally show ?thesis .
qed

lemma valid_idx_between:
  assumes "l < r" "r < length t" "t ! l \<noteq> None" "t ! r \<noteq> None"
    and "\<forall>k. l < k \<and> k < r \<longrightarrow> t ! k = None"
  shows "valid_idx t =
           filter (\<lambda>i. t ! i \<noteq> None) [0..<l] @ l # r # filter (\<lambda>i. t ! i \<noteq> None) [Suc r..<length t]"
proof -
  have "filter (\<lambda>i. t ! i \<noteq> None) [Suc l..<r] = []"
    using assms(5) by (auto simp: filter_empty_conv)
  then show ?thesis
    unfolding valid_idx_def upt_split3 [OF assms(1,2)] using assms(3,4) by simp
qed

lemma valid_idx_first:
  assumes "r < length t" "t ! r \<noteq> None" "\<forall>k<r. t ! k = None"
  shows "valid_idx t = r # filter (\<lambda>i. t ! i \<noteq> None) [Suc r..<length t]"
proof -
  have "filter (\<lambda>i. t ! i \<noteq> None) [0..<r] = []"
    using assms(3) by (auto simp: filter_empty_conv)
  then show ?thesis
    unfolding valid_idx_def upt_split2 [OF assms(1)] using assms(2) by simp
qed

lemma valid_idx_last:
  assumes "l < length t" "t ! l \<noteq> None" "\<forall>k. l < k \<and> k < length t \<longrightarrow> t ! k = None"
  shows "valid_idx t = filter (\<lambda>i. t ! i \<noteq> None) [0..<l] @ [l]"
proof -
  have "filter (\<lambda>i. t ! i \<noteq> None) [Suc l..<length t] = []"
    using assms(3) by (auto simp: filter_empty_conv)
  then show ?thesis
    unfolding valid_idx_def upt_split2 [OF assms(1)] using assms(2) by simp
qed

lemma interp_one_between:
  fixes A B :: "nat list"
  assumes A: "\<forall>k\<in>set A. k < l" and B: "\<forall>k\<in>set B. r < k"
    and i: "l < i" "i < r"
    and len: "length fa = length A"
  shows "interp_one (map real (A @ l # r # B)) (fa @ Some a # Some b # fb) (real i)
           = Some ((b - a) / (real r - real l) * (real i - real l) + a)"
proof -
  let ?xp = "map real (A @ l # r # B)"
  let ?fp = "fa @ Some a # Some b # fb"
  have last_ge: "real r \<le> ?xp ! (length ?xp - 1)"
  proof (cases B)
    case Nil
    then show ?thesis by (simp add: nth_append)
  next
    case (Cons b' B')
    then have "?xp ! (length ?xp - 1) = real (last B)"
      by (simp add: last_conv_nth nth_append)
    moreover have "r < last B" using B Cons by (metis last_in_set list.distinct(1))
    ultimately show ?thesis by simp
  qed
  have first_le: "?xp ! 0 \<le> real l"
  proof (cases A)
    case Nil
    then show ?thesis by simp
  next
    case (Cons a' A')
    then show ?thesis using A by simp
  qed
  have tw: "takeWhile (\<lambda>p. p \<le> real i) ?xp = map real A @ [real l]"
  proof -
    have "\<And>x. x \<in> set (map real A) \<Longrightarrow> x \<le> real i" using A i by auto
    then have "takeWhile (\<lambda>p. p \<le> real i) (map real A @ map real (l # r # B))
                 = map real A @ takeWhile (\<lambda>p. p \<le> real i) (map real (l # r # B))"
      by (rule takeWhile_append2)
    then show ?thesis using i by simp
  qed
  have j: "interp_index ?xp (real i) = length A"
    unfolding interp_index_def tw by simp
  have "\<not> real i > ?xp ! (length ?xp - 1)" using last_ge i by simp
  moreover have "\<not> real i < ?xp ! 0" using first_le i by simp
  moreover have "length A \<noteq> length ?xp - 1" by simp
  moreover have "?xp ! length A = real l" "?xp ! (length A + 1) = real r"
    by (simp_all add: nth_append)
  moreover have "?fp ! length A = Some a" "?fp ! (length A + 1) = Some b"
    using len by (simp_all add: nth_append)
  ultimately show ?thesis
    unfolding interp_one_def Let_def j using i by (simp add: fl2_def)
qed


lemma interp_one_left:
  fixes B :: "nat list"
  assumes B: "\<forall>k\<in>set B. r < k" and i: "i < r"
  shows "interp_one (map real (r # B)) (Some b # fb) (real i) = Some b"
proof -
  let ?xp = "map real (r # B)"
  have "real r \<le> ?xp ! (length ?xp - 1)"
  proof (cases B)
    case Nil
    then show ?thesis by simp
  next
    case (Cons b' B')
    then have "?xp ! (length ?xp - 1) = real (last B)"
      by (simp add: last_conv_nth)
    moreover have "r < last B" using B Cons by (metis last_in_set list.distinct(1))
    ultimately show ?thesis by simp
  qed
  then have "\<not> real i > ?xp ! (length ?xp - 1)" using i by simp
  then show ?thesis unfolding interp_one_def Let_def using i by simp
qed

lemma interp_one_right:
  fixes A :: "nat list"
  assumes i: "l < i" and len: "length fa = length A"
  shows "interp_one (map real (A @ [l])) (fa @ [Some a]) (real i) = Some a"
  unfolding interp_one_def Let_def using i len by (simp add: nth_append)

lemma fill_between:
  assumes "l < i" "i < r" "r < length t" "t ! l = Some a" "t ! r = Some b"
    and "\<forall>k. l < k \<and> k < r \<longrightarrow> t ! k = None"
  shows "fill t i = Some ((b - a) / (real r - real l) * (real i - real l) + a)"
proof -
  have lr: "l < r" using assms(1,2) by simp
  have v: "valid_idx t =
      filter (\<lambda>i. t ! i \<noteq> None) [0..<l] @ l # r # filter (\<lambda>i. t ! i \<noteq> None) [Suc r..<length t]"
    using valid_idx_between [OF lr assms(3) _ _ assms(6)] assms(4,5) by simp
  show ?thesis
    unfolding fill_def v using assms(4,5)
      interp_one_between [of "filter (\<lambda>i. t ! i \<noteq> None) [0..<l]" l
        "filter (\<lambda>i. t ! i \<noteq> None) [Suc r..<length t]" r i
        "map (\<lambda>i. t ! i) (filter (\<lambda>i. t ! i \<noteq> None) [0..<l])" a b
        "map (\<lambda>i. t ! i) (filter (\<lambda>i. t ! i \<noteq> None) [Suc r..<length t])"]
      assms(1,2)
    by simp
qed

lemma fill_left:
  assumes "i < r" "r < length t" "t ! r = Some b" "\<forall>k<r. t ! k = None"
  shows "fill t i = Some b"
proof -
  have v: "valid_idx t = r # filter (\<lambda>i. t ! i \<noteq> None) [Suc r..<length t]"
    using valid_idx_first [OF assms(2) _ assms(4)] assms(3) by simp
  show ?thesis
    unfolding fill_def v using assms(3)
      interp_one_left [of "filter (\<lambda>i. t ! i \<noteq> None) [Suc r..<length t]" r i b
        "map (\<lambda>i. t ! i) (filter (\<lambda>i. t ! i \<noteq> None) [Suc r..<length t])"] assms(1)
    by simp
qed

lemma fill_right:
  assumes "l < i" "l < length t" "t ! l = Some a" "\<forall>k. l < k \<and> k < length t \<longrightarrow> t ! k = None"
  shows "fill t i = Some a"
proof -
  have v: "valid_idx t = filter (\<lambda>i. t ! i \<noteq> None) [0..<l] @ [l]"
    using valid_idx_last [OF assms(2) _ assms(4)] assms(3) by simp
  show ?thesis
    unfolding fill_def v using assms(3)
      interp_one_right [of l i "map (\<lambda>i. t ! i) (filter (\<lambda>i. t ! i \<noteq> None) [0..<l])"
        "filter (\<lambda>i. t ! i \<noteq> None) [0..<l]" a] assms(1)
    by simp
qed

lemma fill_not_nan:
  assumes "valid_idx t \<noteq> []"
  shows "fill t i \<noteq> None"
  unfolding fill_def
  by (rule interp_one_not_nan) (use assms in \<open>auto simp: valid_idx_def list_all_iff\<close>)

lemma valid_idx_nonempty:
  "valid_idx t \<noteq> [] \<longleftrightarrow> (\<exists>i<length t. t ! i \<noteq> None)"
  by (auto simp: valid_idx_def filter_empty_conv)


lemmas repair_defs = repair_nan_def np_interp_def interp_one_def interp_index_def mask_get_def
  mask_set_def flatnonzero_def np_isnan_def fl2_def

text \<open>
  Claim C1.  The three series of the specification are repaired as it says, and for every
  thickness series with at least one entry that is not NaN the repair succeeds, keeps the
  length and leaves no NaN.  A NaN entry between two nearest valid entries \<open>l\<close> and \<open>r\<close>
  takes the value of the straight line through them at its own index; a NaN entry before
  the first valid entry takes the value of the first, and one after the last valid entry
  takes the value of the last.
\<close>

theorem repair_nan_interpolates:
  "repair_nan [Some 10, None, Some 20] = Inr [Some 10, Some 15, Some 20] \<and>
   repair_nan [None, Some 10, Some 20] = Inr [Some 10, Some 10, Some 20] \<and>
   repair_nan [Some 10, Some 20, None] = Inr [Some 10, Some 20, Some 20] \<and>
   ((\<exists>i<length t. t ! i \<noteq> None) \<longrightarrow>
    (\<exists>out. repair_nan t = Inr out \<and> length out = length t \<and>
       list_all (\<lambda>v. v \<noteq> None) out \<and>
       (\<forall>l i r a b. l < i \<and> i < r \<and> r < length t \<and> t ! l = Some a \<and> t ! r = Some b \<and>
           (\<forall>k. l < k \<and> k < r \<longrightarrow> t ! k = None) \<longrightarrow>
           out ! i = Some ((b - a) / (real r - real l) * (real i - real l) + a)) \<and>
       (\<forall>i r b. i < r \<and> r < length t \<and> t ! r = Some b \<and> (\<forall>k<r. t ! k = None) \<longrightarrow>
           out ! i = Some b) \<and>
       (\<forall>l i a. l < i \<and> i < length t \<and> t ! l = Some a \<and>
           (\<forall>k. l < k \<and> k < length t \<longrightarrow> t ! k = None) \<longrightarrow>
           out ! i = Some a)))"
proof (intro conjI impI)
  show "repair_nan [Some 10, None, Some 20] = Inr [Some 10, Some 15, Some 20]"
    by (simp add: repair_defs)
  show "repair_nan [None, Some 10, Some 20] = Inr [Some 10, Some 10, Some 20]"
    by (simp add: repair_defs)
  show "repair_nan [Some 10, Some 20, None] = Inr [Some 10, Some 20, Some 20]"
    by (simp add: repair_defs)
next
  assume "\<exists>i<length t. t ! i \<noteq> None"
  then have ne: "valid_idx t \<noteq> []" by (simp add: valid_idx_nonempty)
  let ?out = "map (\<lambda>i. if t ! i = None then fill t i else t ! i) [0..<length t]"
  have eq: "repair_nan t = Inr ?out" by (rule repair_nan_eq [OF ne])
  have len: "length ?out = length t" by simp
  have all: "list_all (\<lambda>v. v \<noteq> None) ?out"
    using fill_not_nan [OF ne] by (auto simp: list_all_iff)
  have mid: "\<forall>l i r a b. l < i \<and> i < r \<and> r < length t \<and> t ! l = Some a \<and> t ! r = Some b \<and>
           (\<forall>k. l < k \<and> k < r \<longrightarrow> t ! k = None) \<longrightarrow>
           ?out ! i = Some ((b - a) / (real r - real l) * (real i - real l) + a)"
  proof (intro allI impI)
    fix l i r a b
    assume h: "l < i \<and> i < r \<and> r < length t \<and> t ! l = Some a \<and> t ! r = Some b \<and>
           (\<forall>k. l < k \<and> k < r \<longrightarrow> t ! k = None)"
    then have "t ! i = None" "i < length t" by auto
    moreover have "fill t i = Some ((b - a) / (real r - real l) * (real i - real l) + a)"
      using h by (intro fill_between) auto
    ultimately show "?out ! i = Some ((b - a) / (real r - real l) * (real i - real l) + a)"
      by simp
  qed
  have left: "\<forall>i r b. i < r \<and> r < length t \<and> t ! r = Some b \<and> (\<forall>k<r. t ! k = None) \<longrightarrow>
           ?out ! i = Some b"
  proof (intro allI impI)
    fix i r b
    assume h: "i < r \<and> r < length t \<and> t ! r = Some b \<and> (\<forall>k<r. t ! k = None)"
    then have "t ! i = None" "i < length t" by auto
    moreover have "fill t i = Some b" using h by (intro fill_left [of i r]) auto
    ultimately show "?out ! i = Some b" by simp
  qed
  have right: "\<forall>l i a. l < i \<and> i < length t \<and> t ! l = Some a \<and>
           (\<forall>k. l < k \<and> k < length t \<longrightarrow> t ! k = None) \<longrightarrow> ?out ! i = Some a"
  proof (intro allI impI)
    fix l i a
    assume h: "l < i \<and> i < length t \<and> t ! l = Some a \<and>
           (\<forall>k. l < k \<and> k < length t \<longrightarrow> t ! k = None)"
    then have "t ! i = None" "i < length t" by auto
    moreover have "fill t i = Some a" using h by (intro fill_right [of l i]) auto
    ultimately show "?out ! i = Some a" by simp
  qed
  show "\<exists>out. repair_nan t = Inr out \<and> length out = length t \<and>
       list_all (\<lambda>v. v \<noteq> None) out \<and>
       (\<forall>l i r a b. l < i \<and> i < r \<and> r < length t \<and> t ! l = Some a \<and> t ! r = Some b \<and>
           (\<forall>k. l < k \<and> k < r \<longrightarrow> t ! k = None) \<longrightarrow>
           out ! i = Some ((b - a) / (real r - real l) * (real i - real l) + a)) \<and>
       (\<forall>i r b. i < r \<and> r < length t \<and> t ! r = Some b \<and> (\<forall>k<r. t ! k = None) \<longrightarrow>
           out ! i = Some b) \<and>
       (\<forall>l i a. l < i \<and> i < length t \<and> t ! l = Some a \<and>
           (\<forall>k. l < k \<and> k < length t \<longrightarrow> t ! k = None) \<longrightarrow>
           out ! i = Some a)"
    using eq len all mid left right by blast
qed

text \<open>The theorem at a series with a gap at each end and a gap of two in the middle.\<close>

theorem repair_nan_interpolates_witness:
  "\<exists>out. repair_nan [None, Some 10, None, None, Some 40, None] = Inr out \<and>
     length out = 6 \<and> list_all (\<lambda>v. v \<noteq> None) out \<and>
     out ! 0 = Some 10 \<and> out ! 2 = Some 20 \<and> out ! 3 = Some 30 \<and> out ! 5 = Some 40"
proof -
  let ?t = "[None, Some 10, None, None, Some 40, None] :: npfloat list"
  have v: "\<exists>i<length ?t. ?t ! i \<noteq> None" by (rule exI [of _ 1]) simp
  note ex = repair_nan_interpolates [of ?t, THEN conjunct2, THEN conjunct2, THEN conjunct2,
      THEN mp, OF v]
  then obtain out where
    eq: "repair_nan ?t = Inr out" and len: "length out = length ?t"
    and all: "list_all (\<lambda>v. v \<noteq> None) out"
    and mid: "\<forall>l i r a b. l < i \<and> i < r \<and> r < length ?t \<and> ?t ! l = Some a \<and> ?t ! r = Some b \<and>
           (\<forall>k. l < k \<and> k < r \<longrightarrow> ?t ! k = None) \<longrightarrow>
           out ! i = Some ((b - a) / (real r - real l) * (real i - real l) + a)"
    and left: "\<forall>i r b. i < r \<and> r < length ?t \<and> ?t ! r = Some b \<and> (\<forall>k<r. ?t ! k = None) \<longrightarrow>
           out ! i = Some b"
    and right: "\<forall>l i a. l < i \<and> i < length ?t \<and> ?t ! l = Some a \<and>
           (\<forall>k. l < k \<and> k < length ?t \<longrightarrow> ?t ! k = None) \<longrightarrow> out ! i = Some a"
    by (elim exE conjE)
  have btw: "\<forall>k. (1::nat) < k \<and> k < 4 \<longrightarrow> ?t ! k = None"
  proof (intro allI impI)
    fix k :: nat assume "1 < k \<and> k < 4"
    then have "k = 2 \<or> k = 3" by arith
    then show "?t ! k = None" by auto
  qed
  have o0: "out ! 0 = Some 10" using left [rule_format, of 0 1 10] by simp
  have o2: "out ! 2 = Some 20" using mid [rule_format, of 1 2 4 10 40] btw by simp
  have o3: "out ! 3 = Some 30" using mid [rule_format, of 1 3 4 10 40] btw by simp
  have aft: "\<forall>k. (4::nat) < k \<and> k < length ?t \<longrightarrow> ?t ! k = None"
  proof (intro allI impI)
    fix k :: nat assume "4 < k \<and> k < length ?t"
    then have "k = 5" by simp
    then show "?t ! k = None" by simp
  qed
  have o5: "out ! 5 = Some 40" using right [rule_format, of 4 5 40] aft by simp
  show ?thesis using eq len all o0 o2 o3 o5 by simp
qed

text \<open>
  Claim C10.  The repair succeeds on every series that has a valid entry, and each valid
  entry is at its position in the repaired series, unchanged.
\<close>

theorem repair_nan_keeps_valid:
  assumes "i < length t" "t ! i = Some v"
  shows "\<exists>out. repair_nan t = Inr out \<and> length out = length t \<and> out ! i = Some v"
proof -
  have ne: "valid_idx t \<noteq> []"
    unfolding valid_idx_nonempty using assms by auto
  show ?thesis unfolding repair_nan_eq [OF ne] using assms by simp
qed

theorem repair_nan_keeps_valid_witness:
  "\<exists>out. repair_nan [Some 10, None, Some 20] = Inr out \<and> length out = 3 \<and> out ! 2 = Some 20"
  using repair_nan_keeps_valid [of 2 "[Some 10, None, Some 20]" 20] by (simp add: numeral_3_eq_3)

section \<open>The constructor on a text\<close>

lemmas regex_defs = patt_stddev_def patt_mean_def patt_rad_def patt_theta_def patt_thick_def
  scalar_pattern_def series_pattern_def matched_def is_space_def is_dot_def

lemmas float_defs = float_of_string_def unsigned_decimal_def digits_value_def is_digit_def

lemmas init_defs = EllipMap_init_def search_float_def thick_floats_def nan_fill_def np_str_def
  np_str_width_def np_radians_def fl1_def

lemma astype_float_length:
  "astype_float cast ss = Inr vs \<Longrightarrow> length vs = length ss"
  by (induction ss arbitrary: vs) (auto split: option.splits sum.splits)

lemma repair_nan_length:
  assumes "repair_nan t = Inr out"
  shows "length out = length t"
proof (cases "valid_idx t = []")
  case True
  then show ?thesis using assms repair_nan_none by simp
next
  case False
  then show ?thesis using assms repair_nan_eq [OF False] by auto
qed

lemma nan_fill_length: "length (nan_fill ms) = length ms"
  by (simp add: nan_fill_def)

lemma lit_prefix: "lit l k s = Some r \<Longrightarrow> prefix l s"
  by (induction l k s rule: lit.induct) (auto split: if_splits)

lemma re_search_scalar_sublist:
  "re_search (scalar_pattern l) s = Some g \<Longrightarrow> sublist l s"
proof (induction s)
  case Nil
  then obtain r where "lit l (space_star (lazy_group (\<lambda>cap. space1 (matched cap)) [])) [] = Some r"
    by (auto simp: scalar_pattern_def)
  then show ?case by (auto dest!: lit_prefix)
next
  case (Cons c cs)
  show ?case
  proof (cases "scalar_pattern l (c # cs)")
    case None
    then have "sublist l cs" using Cons by simp
    then show ?thesis by (simp add: sublist_Cons_right)
  next
    case (Some r)
    then have "prefix l (c # cs)" unfolding scalar_pattern_def by (rule lit_prefix)
    then show ?thesis by (simp add: sublist_Cons_right)
  qed
qed

lemma search_float_mean_absent:
  assumes "\<not> sublist ''Mean'' content"
  shows "search_float pyfloat ''Mean'' patt_mean content = Inl (AttributeError ''Mean'')"
proof -
  have "re_search patt_mean content = None"
  proof (cases "re_search patt_mean content")
    case None
    then show ?thesis .
  next
    case (Some g)
    then show ?thesis using assms re_search_scalar_sublist [of "''Mean''" content g]
      by (simp add: patt_mean_def)
  qed
  then show ?thesis by (simp add: search_float_def)
qed

text \<open>
  Claim C8, as the code has it.  On a text in which the label \<^verbatim>\<open>Mean\<close> does not occur the
  constructor raises and returns no object.  The exception is the one of the search for
  \<^verbatim>\<open>Mean\<close> whenever the statement before it, the search for \<^verbatim>\<open>StdDev\<close> and the conversion of
  its capture, has succeeded; otherwise that earlier statement raises.
\<close>

theorem init_fails_without_mean:
  assumes "\<not> sublist ''Mean'' content"
  shows "(\<exists>e. EllipMap_init pyfloat cast content = Inl e) \<and>
         (\<forall>sd. search_float pyfloat ''StdDev'' patt_stddev content = Inr sd \<longrightarrow>
            EllipMap_init pyfloat cast content = Inl (AttributeError ''Mean''))"
  unfolding EllipMap_init_def search_float_mean_absent [OF assms]
  by (simp split: sum.splits)

text \<open>
  The theorem at a text with \<^verbatim>\<open>StdDev\<close> and without \<^verbatim>\<open>Mean\<close>.
\<close>

theorem init_fails_without_mean_witness:
  "\<not> sublist ''Mean'' ''StdDev 1.5 R= 1,'' \<and>
   search_float float_of_string ''StdDev'' patt_stddev ''StdDev 1.5 R= 1,'' = Inr (Some (3 / 2)) \<and>
   EllipMap_init float_of_string float_of_string ''StdDev 1.5 R= 1,'' = Inl (AttributeError ''Mean'')"
proof -
  have a: "\<not> sublist ''Mean'' ''StdDev 1.5 R= 1,''"
    by (simp add: sublist_code)
  have b: "search_float float_of_string ''StdDev'' patt_stddev ''StdDev 1.5 R= 1,'' = Inr (Some (3 / 2))"
    by (simp add: search_float_def regex_defs float_defs)
  from init_fails_without_mean [OF a, of float_of_string float_of_string] b
  show ?thesis using a by blast
qed

text \<open>
  Claim C8 as stated fails on a text that has neither label: the exception is the one of
  the search for \<^verbatim>\<open>StdDev\<close>, in line 89, and the search for \<^verbatim>\<open>Mean\<close> is not reached.
\<close>

theorem init_without_mean_counterexample:
  "\<not> sublist ''Mean'' ''R= 1, Theta= 0, Thick1= 100,'' \<and>
   EllipMap_init float_of_string float_of_string ''R= 1, Theta= 0, Thick1= 100,''
     = Inl (AttributeError ''StdDev'')"
  by (simp add: sublist_code init_defs regex_defs)

text \<open>
  Claim C3, as the code has it.  The constructor compares no lengths.  In every object it
  returns, the radius, angle and thickness arrays have as many entries as the text has
  matches of \<^verbatim>\<open>patt_rad\<close>, \<^verbatim>\<open>patt_theta\<close> and \<^verbatim>\<open>patt_thick\<close>, so the three lengths agree exactly
  when the three numbers of matches agree.
\<close>

theorem init_series_lengths:
  assumes "EllipMap_init pyfloat cast content = Inr m"
  shows "length (rad_arr m) = length (re_findall patt_rad content) \<and>
         length (theta_arr m) = length (re_findall patt_theta content) \<and>
         length (thick_arr m) = length (re_findall patt_thick content)"
  using assms unfolding EllipMap_init_def thick_floats_def
  by (auto split: sum.splits dest!: astype_float_length repair_nan_length simp: nan_fill_length)

text \<open>
  Claim C3 as stated fails on a text with two radii, one angle and one thickness: the
  constructor returns an object whose arrays have the lengths 2, 1 and 1.
\<close>

theorem init_series_lengths_counterexample:
  "EllipMap_init float_of_string float_of_string
     ''StdDev 1.5 Mean 100 R= 1, R= 2, Theta= 0, Thick1= 100,'' =
   Inr \<lparr>stddev = Some (3 / 2), mean = Some 100, rad_arr = [Some 1, Some 2],
        theta_arr = [Some 0], thick_arr = [Some 100]\<rparr>"
  by (simp add: init_defs regex_defs float_defs repair_defs)

text \<open>
  The theorem at a text with one sample.
\<close>

theorem init_series_lengths_witness:
  "length (re_findall patt_rad ''StdDev 1.5 Mean 100 R= 1, Theta= 90, Thick1= 100,'') = 1 \<and>
   length (re_findall patt_theta ''StdDev 1.5 Mean 100 R= 1, Theta= 90, Thick1= 100,'') = 1 \<and>
   length (re_findall patt_thick ''StdDev 1.5 Mean 100 R= 1, Theta= 90, Thick1= 100,'') = 1"
proof -
  have h: "EllipMap_init float_of_string float_of_string
     ''StdDev 1.5 Mean 100 R= 1, Theta= 90, Thick1= 100,'' =
   Inr \<lparr>stddev = Some (3 / 2), mean = Some 100, rad_arr = [Some 1],
        theta_arr = [Some (pi / 2)], thick_arr = [Some 100]\<rparr>"
    by (simp add: init_defs regex_defs float_defs repair_defs)
  from init_series_lengths [OF h] show ?thesis by simp
qed

text \<open>
  Claim C2.  The comments in lines 84 and 97 announce the marker \<^verbatim>\<open>No Solution\<close>, and the
  pattern in line 85 spells it \<^verbatim>\<open>No Soution\<close>.  On a text of three samples whose second
  sample has \<^verbatim>\<open>No Solution\<close> for its thickness, the marker is not matched: the thickness
  array has two entries for three radii and three angles.  The same text with the marker
  spelled as the pattern spells it gives three entries, the second one interpolated.
\<close>

theorem no_solution_marker_unmatched:
  "EllipMap_init float_of_string float_of_string
     ''StdDev 1.5 Mean 150 R= 1, Theta= 0, Thick1= 100, R= 2, Theta= 90, No Solution R= 3, Theta= 180, Thick1= 200,'' =
   Inr \<lparr>stddev = Some (3 / 2), mean = Some 150, rad_arr = [Some 1, Some 2, Some 3],
        theta_arr = [Some 0, Some (pi / 2), Some pi], thick_arr = [Some 100, Some 200]\<rparr> \<and>
   EllipMap_init float_of_string float_of_string
     ''StdDev 1.5 Mean 150 R= 1, Theta= 0, Thick1= 100, R= 2, Theta= 90, No Soution R= 3, Theta= 180, Thick1= 200,'' =
   Inr \<lparr>stddev = Some (3 / 2), mean = Some 150, rad_arr = [Some 1, Some 2, Some 3],
        theta_arr = [Some 0, Some (pi / 2), Some pi],
        thick_arr = [Some 100, Some 150, Some 200]\<rparr>"
  by (simp add: init_defs regex_defs float_defs repair_defs)

section \<open>The interpolated mesh\<close>

lemmas grid_defs = interp_grid_def cartesian_def np_binop_def dense_axis_def py_min_def py_max_def
  fl_less_def np_linspace_def np_meshgrid_def np_reshape_def grid_map2_def polar_r_def
  np_arctan2_def arctan2_def fl1_def fl2_def Let_def

text \<open>
  Claim C5.  With the polar flag set and with the flag cleared \<open>interp_grid\<close> raises the
  same exception or returns the same array of values: the flag decides the two coordinate
  arrays only.
\<close>

theorem interp_grid_values_same:
  "map_sum id (snd \<circ> snd) (interp_grid fit m True ptnum) =
   map_sum id (snd \<circ> snd) (interp_grid fit m False ptnum)"
  by (simp add: interp_grid_def Let_def split: sum.splits option.splits prod.splits)

lemma cartesian_length:
  assumes "cartesian m = Inr (x, y)"
  shows "length x = length y"
  using assms unfolding cartesian_def np_binop_def
  by (auto split: sum.splits if_splits)

lemma dense_axis_negative:
  assumes "x \<noteq> []" "ptnum < 0"
  shows "dense_axis x ptnum = Inl (ValueError_linspace ptnum)"
  using assms by (cases x) (simp_all add: dense_axis_def py_min_def py_max_def np_linspace_def)

lemma dense_axis_zero:
  assumes "x \<noteq> []"
  shows "dense_axis x 0 = Inr []"
  using assms by (cases x) (simp_all add: dense_axis_def py_min_def py_max_def np_linspace_def)

lemma dense_axis_negative_fails:
  assumes "ptnum < 0"
  shows "\<exists>e. dense_axis x ptnum = Inl e"
  using assms by (cases x) (simp_all add: dense_axis_def py_min_def py_max_def np_linspace_def)

text \<open>
  Claim C9, as the code has it.  \<open>interp_grid\<close> has no check of the resolution.  A
  negative \<open>ptnum\<close> makes it raise, and the exception is that of \<^verbatim>\<open>np.linspace\<close> when the
  conversion to Cartesian coordinates and the fit have succeeded on at least one sample,
  after they have run.  With \<open>ptnum = 0\<close> it then raises nothing and returns three empty
  arrays.
\<close>

theorem interp_grid_resolution:
  "(ptnum < 0 \<longrightarrow> (\<exists>e. interp_grid fit m b ptnum = Inl e)) \<and>
   (\<forall>x y f. cartesian m = Inr (x, y) \<and> fit (zip x y) (thick_arr m) = Some f \<and> x \<noteq> [] \<longrightarrow>
      (ptnum < 0 \<longrightarrow> interp_grid fit m b ptnum = Inl (ValueError_linspace ptnum)) \<and>
      (ptnum = 0 \<longrightarrow> interp_grid fit m b ptnum = Inr ([], [], [])))"
proof (intro conjI allI impI)
  assume neg: "ptnum < 0"
  show "\<exists>e. interp_grid fit m b ptnum = Inl e"
  proof (cases "cartesian m")
    case (Inl e)
    then show ?thesis by (simp add: interp_grid_def)
  next
    case (Inr xy)
    obtain x y where xy: "xy = (x, y)" by (cases xy)
    show ?thesis
    proof (cases "fit (zip x y) (thick_arr m)")
      case None
      then show ?thesis using Inr xy by (simp add: interp_grid_def)
    next
      case (Some f)
      obtain e where "dense_axis x ptnum = Inl e"
        using dense_axis_negative_fails [OF neg] by blast
      then show ?thesis using Inr xy Some by (simp add: interp_grid_def)
    qed
  qed
next
  fix x y f
  assume h: "cartesian m = Inr (x, y) \<and> fit (zip x y) (thick_arr m) = Some f \<and> x \<noteq> []"
  assume neg: "ptnum < 0"
  show "interp_grid fit m b ptnum = Inl (ValueError_linspace ptnum)"
    using h dense_axis_negative [of x ptnum] neg by (simp add: interp_grid_def)
next
  fix x y f
  assume h: "cartesian m = Inr (x, y) \<and> fit (zip x y) (thick_arr m) = Some f \<and> x \<noteq> []"
  assume z: "ptnum = 0"
  have "y \<noteq> []" using h cartesian_length [of m x y] by auto
  then show "interp_grid fit m b ptnum = Inr ([], [], [])"
    using h z dense_axis_zero [of x] dense_axis_zero [of y]
    by (simp add: interp_grid_def np_meshgrid_def np_reshape_def grid_map2_def)
qed

text \<open>
  Claim C9 as stated fails at \<open>ptnum = 0\<close>: three empty arrays are returned.
\<close>

theorem interp_grid_resolution_counterexample:
  "interp_grid rbf_fit_3 unit_samples False 0 = Inr ([], [], [])"
  by (simp add: unit_samples_def grid_defs)

lemma unit_samples_cartesian:
  "cartesian unit_samples = Inr ([Some 0, Some 1, Some 0], [Some 0, Some 0, Some 1])"
  by (simp add: unit_samples_def cartesian_def np_binop_def fl1_def fl2_def)

lemma unit_samples_fit:
  "rbf_fit_3 (zip [Some 0, Some 1, Some 0] [Some 0, Some 0, Some 1]) (thick_arr unit_samples)
     = Some (\<lambda>(qx, qy). fl2 (+) (Some 5)
               (fl2 (+) (fl2 (*) (Some 3) (fl2 (-) qx (Some 0)))
                        (fl2 (*) (Some 4) (fl2 (-) qy (Some 0)))))"
  by (simp add: unit_samples_def)

text \<open>
  The theorem at the three samples, with \<open>ptnum = -2\<close> and \<open>ptnum = 0\<close>.
\<close>

theorem interp_grid_resolution_witness:
  "interp_grid rbf_fit_3 unit_samples True (- 2) = Inl (ValueError_linspace (- 2)) \<and>
   interp_grid rbf_fit_3 unit_samples True 0 = Inr ([], [], [])"
proof -
  have neg: "(- 2 :: int) < 0" by simp
  note h = conjI [OF unit_samples_cartesian conjI [OF unit_samples_fit]]
  have a: "interp_grid rbf_fit_3 unit_samples True (- 2) = Inl (ValueError_linspace (- 2))"
    using interp_grid_resolution [of "- 2" rbf_fit_3 unit_samples True, THEN conjunct2,
        rule_format, OF h, THEN conjunct1, rule_format] by simp
  have b: "interp_grid rbf_fit_3 unit_samples True 0 = Inr ([], [], [])"
    using interp_grid_resolution [of 0 rbf_fit_3 unit_samples True, THEN conjunct2,
        rule_format, OF h, THEN conjunct2, rule_format] by simp
  show ?thesis using a b by simp
qed

lemma fold_min_Some:
  "fold (\<lambda>v m. if fl_less v m then v else m) (map Some r) (Some x) = Some (fold min r x)"
proof (induction r arbitrary: x)
  case Nil
  then show ?case by simp
next
  case (Cons a r)
  have "(if fl_less (Some a) (Some x) then Some a else Some x) = Some (min a x)"
    by (auto simp: fl_less_def min_def)
  then show ?case using Cons.IH by simp
qed

lemma fold_max_Some:
  "fold (\<lambda>v m. if fl_less m v then v else m) (map Some r) (Some x) = Some (fold max r x)"
proof (induction r arbitrary: x)
  case Nil
  then show ?case by simp
next
  case (Cons a r)
  have "(if fl_less (Some x) (Some a) then Some a else Some x) = Some (max a x)"
    by (auto simp: fl_less_def max_def)
  then show ?case using Cons.IH by simp
qed

lemma py_min_Some:
  assumes "xs \<noteq> []"
  shows "py_min (map Some xs) = Inr (Some (Min (set xs)))"
proof -
  obtain a r where xs: "xs = a # r" using assms by (cases xs) auto
  have "Min (set (a # r)) = fold min r a" by (rule Min.set_eq_fold)
  then show ?thesis unfolding xs by (simp add: py_min_def fold_min_Some)
qed

lemma py_max_Some:
  assumes "xs \<noteq> []"
  shows "py_max (map Some xs) = Inr (Some (Max (set xs)))"
proof -
  obtain a r where xs: "xs = a # r" using assms by (cases xs) auto
  have "Max (set (a # r)) = fold max r a" by (rule Max.set_eq_fold)
  then show ?thesis unfolding xs by (simp add: py_max_def fold_max_Some)
qed

lemma np_linspace_one:
  "np_linspace (Some a) (Some b) 1 = Inr [Some a]"
  by (simp add: np_linspace_def fl2_def)

lemma np_linspace_many:
  assumes "2 \<le> n"
  shows "np_linspace (Some a) (Some b) (int n) =
           Inr (map (\<lambda>j. Some (real j * ((b - a) / real (n - 1)) + a)) [0..<n])"
proof -
  let ?y2 = "map (\<lambda>j. Some (real j * ((b - a) / real (n - 1)) + a)) [0..<n]"
  have pos: "real (n - 1) \<noteq> 0" using assms by simp
  have cast: "real_of_int (int n - 1) = real (n - 1)" using assms by (simp add: of_nat_diff)
  have last: "?y2[n - 1 := Some b] = ?y2"
  proof (rule nth_equalityI)
    show "length (?y2[n - 1 := Some b]) = length ?y2" by simp
  next
    fix i assume "i < length (?y2[n - 1 := Some b])"
    then have i: "i < n" by simp
    have e: "real (n - 1) * ((b - a) / real (n - 1)) + a = b" using pos by simp
    show "?y2[n - 1 := Some b] ! i = ?y2 ! i"
    proof (cases "i = n - 1")
      case True
      then show ?thesis using i e by (simp del: of_nat_diff)
    next
      case False
      then show ?thesis using i by (simp add: nth_list_update)
    qed
  qed
  have "np_linspace (Some a) (Some b) (int n) = Inr (?y2[n - 1 := Some b])"
    using assms by (simp add: np_linspace_def Let_def fl2_def comp_def cast)
  then show ?thesis using last by simp
qed

lemma zip_replicate_right:
  "zip xs (replicate (length xs) y) = map (\<lambda>x. (x, y)) xs"
  by (induction xs) auto

lemma meshgrid_pairs:
  "zip (concat (replicate (length yd) xd)) (concat (map (\<lambda>y. replicate (length xd) y) yd))
     = concat (map (\<lambda>y. map (\<lambda>x. (x, y)) xd) yd)"
  by (induction yd) (auto simp: zip_replicate_right)

lemma reshape_concat:
  assumes "\<forall>r\<in>set rs. length r = c"
  shows "np_reshape (length rs) c (concat rs) = rs"
  using assms
proof (induction rs)
  case Nil
  then show ?case by (simp add: np_reshape_def)
next
  case (Cons r rs)
  have len: "length r = c" using Cons.prems by simp
  have "map (\<lambda>i. take c (drop (i * c) (r @ concat rs))) [0..<Suc (length rs)]
          = take c (r @ concat rs) # map (\<lambda>i. take c (drop (Suc i * c) (r @ concat rs))) [0..<length rs]"
    by (simp add: upt_conv_Cons map_Suc_upt [symmetric] del: upt_Suc)
  also have "take c (r @ concat rs) = r" using len by simp
  also have "map (\<lambda>i. take c (drop (Suc i * c) (r @ concat rs))) [0..<length rs]
          = map (\<lambda>i. take c (drop (i * c) (concat rs))) [0..<length rs]"
    using len by (simp add: add.commute)
  also have "\<dots> = rs" using Cons by (simp add: np_reshape_def)
  finally show ?case by (simp add: np_reshape_def)
qed

lemma grid_values:
  "np_reshape (length yd) (length xd)
     (map f (zip (concat (replicate (length yd) xd))
                 (concat (map (\<lambda>y. replicate (length xd) y) yd))))
   = map (\<lambda>y. map (\<lambda>x. f (x, y)) xd) yd"
proof -
  let ?rows = "map (\<lambda>y. map (\<lambda>x. f (x, y)) xd) yd"
  have "map f (concat (map (\<lambda>y. map (\<lambda>x. (x, y)) xd) yd)) = concat ?rows"
    by (simp add: map_concat comp_def)
  moreover have "np_reshape (length ?rows) (length xd) (concat ?rows) = ?rows"
    by (rule reshape_concat) auto
  ultimately show ?thesis by (simp add: meshgrid_pairs)
qed

lemma map2_Some:
  "length rs = length ts \<Longrightarrow>
   map2 (fl2 (*)) (map Some rs) (map (fl1 g) (map Some ts)) = map Some (map2 (\<lambda>r t. r * g t) rs ts)"
  by (induction rs ts rule: list_induct2) (auto simp: fl1_def fl2_def)

lemma cartesian_Some:
  assumes "rad_arr m = map Some rs" "theta_arr m = map Some ts" "length rs = length ts"
  shows "cartesian m = Inr (map Some (cart_x rs ts), map Some (cart_y rs ts))"
  unfolding cartesian_def np_binop_def assms(1,2) cart_x_def cart_y_def
  using assms(3) map2_Some [OF assms(3)] by simp

lemma dense_axis_one:
  assumes "xs \<noteq> []"
  shows "dense_axis (map Some xs) 1 = Inr [Some (Min (set xs))]"
  by (simp add: dense_axis_def py_min_Some [OF assms] py_max_Some [OF assms] np_linspace_one)

lemma dense_axis_many:
  assumes "xs \<noteq> []" "2 \<le> n"
  shows "dense_axis (map Some xs) (int n) = Inr (map (axis_node xs n) [0..<n])"
  by (simp add: dense_axis_def py_min_Some [OF assms(1)] py_max_Some [OF assms(1)]
      np_linspace_many [OF assms(2)] axis_node_def)

lemma dense_axis_length:
  assumes "xs \<noteq> []" "1 \<le> ptnum"
  shows "\<exists>xd. dense_axis (map Some xs) ptnum = Inr xd \<and> length xd = nat ptnum \<and>
          (ptnum = 1 \<longrightarrow> xd = [Some (Min (set xs))]) \<and>
          (2 \<le> ptnum \<longrightarrow> xd = map (axis_node xs (nat ptnum)) [0..<nat ptnum])"
proof (cases "ptnum = 1")
  case True
  then show ?thesis using dense_axis_one [OF assms(1)] by simp
next
  case False
  then have "2 \<le> nat ptnum" using assms(2) by simp
  from dense_axis_many [OF assms(1) this] show ?thesis using assms(2) False by simp
qed

lemma interp_grid_cartesian:
  assumes "cartesian m = Inr (x, y)" "fit (zip x y) (thick_arr m) = Some f"
    "dense_axis x ptnum = Inr xd" "dense_axis y ptnum = Inr yd"
  shows "interp_grid fit m False ptnum =
           Inr (replicate (length yd) xd, map (\<lambda>v. replicate (length xd) v) yd,
                map (\<lambda>v. map (\<lambda>u. f (u, v)) xd) yd)"
  using assms by (simp add: interp_grid_def np_meshgrid_def grid_values)

lemma interp_grid_polar:
  assumes "cartesian m = Inr (x, y)" "fit (zip x y) (thick_arr m) = Some f"
    "dense_axis x ptnum = Inr xd" "dense_axis y ptnum = Inr yd"
  shows "interp_grid fit m True ptnum =
           Inr (grid_map2 polar_r (replicate (length yd) xd) (map (\<lambda>v. replicate (length xd) v) yd),
                grid_map2 np_arctan2 (map (\<lambda>v. replicate (length xd) v) yd) (replicate (length yd) xd),
                map (\<lambda>v. map (\<lambda>u. f (u, v)) xd) yd)"
  using assms by (simp add: interp_grid_def np_meshgrid_def grid_values)

lemma has_shape_replicate: "length xd = c \<Longrightarrow> has_shape (replicate r xd) r c"
  by (simp add: has_shape_def list_all_iff)

lemma has_shape_map_replicate: "length yd = r \<Longrightarrow> has_shape (map (\<lambda>v. replicate c v) yd) r c"
  by (simp add: has_shape_def list_all_iff)

lemma has_shape_map_map: "length yd = r \<Longrightarrow> length xd = c \<Longrightarrow> has_shape (map (\<lambda>v. map (g v) xd) yd) r c"
  by (simp add: has_shape_def list_all_iff)

lemma has_shape_grid_map2:
  assumes "has_shape g r c" "has_shape h r c"
  shows "has_shape (grid_map2 f g h) r c"
  using assms unfolding has_shape_def grid_map2_def list_all_iff
  by (auto simp: set_zip)


text \<open>
  Claim C7, as the code has it.  Let the radii and angles be numbers, as many angles as
  radii and at least one, let the fit succeed and let \<open>ptnum \<ge> 1\<close>.  Then \<open>interp_grid\<close>
  returns, in either mode, two coordinate arrays and an array of values of \<open>ptnum\<close> rows
  and \<open>ptnum\<close> columns, and the value at a node is the interpolant at the Cartesian
  coordinates of the node.  For \<open>ptnum \<ge> 2\<close> node \<open>(i, j)\<close> of the Cartesian mesh has the
  \<open>j\<close>-th of \<open>ptnum\<close> equally spaced abscissae from the least to the greatest sample
  abscissa, both ends included, and the \<open>i\<close>-th of such ordinates.  For \<open>ptnum = 1\<close> the
  mesh is the one node at the least abscissa and the least ordinate.
\<close>

theorem interp_grid_mesh:
  assumes "rad_arr m = map Some rs" and "theta_arr m = map Some ts"
    and "length rs = length ts" and "rs \<noteq> []"
    and "fit (zip (map Some (cart_x rs ts)) (map Some (cart_y rs ts))) (thick_arr m) = Some f"
    and "1 \<le> ptnum"
  shows "\<exists>g1 g2 z p1 p2.
      interp_grid fit m False ptnum = Inr (g1, g2, z) \<and>
      interp_grid fit m True ptnum = Inr (p1, p2, z) \<and>
      has_shape g1 (nat ptnum) (nat ptnum) \<and> has_shape g2 (nat ptnum) (nat ptnum) \<and>
      has_shape z (nat ptnum) (nat ptnum) \<and>
      has_shape p1 (nat ptnum) (nat ptnum) \<and> has_shape p2 (nat ptnum) (nat ptnum) \<and>
      (\<forall>i<nat ptnum. \<forall>j<nat ptnum. z ! i ! j = f (g1 ! i ! j, g2 ! i ! j)) \<and>
      (2 \<le> ptnum \<longrightarrow>
         (\<forall>i<nat ptnum. \<forall>j<nat ptnum.
            g1 ! i ! j = axis_node (cart_x rs ts) (nat ptnum) j \<and>
            g2 ! i ! j = axis_node (cart_y rs ts) (nat ptnum) i) \<and>
         axis_node (cart_x rs ts) (nat ptnum) 0 = Some (Min (set (cart_x rs ts))) \<and>
         axis_node (cart_x rs ts) (nat ptnum) (nat ptnum - 1) = Some (Max (set (cart_x rs ts))) \<and>
         axis_node (cart_y rs ts) (nat ptnum) 0 = Some (Min (set (cart_y rs ts))) \<and>
         axis_node (cart_y rs ts) (nat ptnum) (nat ptnum - 1) = Some (Max (set (cart_y rs ts)))) \<and>
      (ptnum = 1 \<longrightarrow>
         g1 = [[Some (Min (set (cart_x rs ts)))]] \<and> g2 = [[Some (Min (set (cart_y rs ts)))]])"
proof -
  let ?n = "nat ptnum"
  let ?xs = "cart_x rs ts" and ?ys = "cart_y rs ts"
  have xne: "?xs \<noteq> []" and yne: "?ys \<noteq> []"
    using assms(3,4) by (auto simp: cart_x_def cart_y_def)
  obtain xd where xd: "dense_axis (map Some ?xs) ptnum = Inr xd" "length xd = ?n"
    "ptnum = 1 \<longrightarrow> xd = [Some (Min (set ?xs))]"
    "2 \<le> ptnum \<longrightarrow> xd = map (axis_node ?xs ?n) [0..<?n]"
    using dense_axis_length [OF xne assms(6)] by (elim exE conjE)
  obtain yd where yd: "dense_axis (map Some ?ys) ptnum = Inr yd" "length yd = ?n"
    "ptnum = 1 \<longrightarrow> yd = [Some (Min (set ?ys))]"
    "2 \<le> ptnum \<longrightarrow> yd = map (axis_node ?ys ?n) [0..<?n]"
    using dense_axis_length [OF yne assms(6)] by (elim exE conjE)
  let ?g1 = "replicate (length yd) xd"
  let ?g2 = "map (\<lambda>v. replicate (length xd) v) yd"
  let ?z = "map (\<lambda>v. map (\<lambda>u. f (u, v)) xd) yd"
  let ?p1 = "grid_map2 polar_r ?g1 ?g2"
  let ?p2 = "grid_map2 np_arctan2 ?g2 ?g1"
  note c = cartesian_Some [OF assms(1,2,3)]
  have cart: "interp_grid fit m False ptnum = Inr (?g1, ?g2, ?z)"
    using c assms(5) xd(1) yd(1)
    by (rule interp_grid_cartesian [where m = m and fit = fit and f = f and xd = xd and yd = yd])
  have pol: "interp_grid fit m True ptnum = Inr (?p1, ?p2, ?z)"
    using c assms(5) xd(1) yd(1)
    by (rule interp_grid_polar [where m = m and fit = fit and f = f and xd = xd and yd = yd])
  have s1: "has_shape ?g1 ?n ?n" unfolding yd(2) by (rule has_shape_replicate [OF xd(2)])
  have s2: "has_shape ?g2 ?n ?n" unfolding xd(2) by (rule has_shape_map_replicate [OF yd(2)])
  have s3: "has_shape ?z ?n ?n" by (rule has_shape_map_map [OF yd(2) xd(2)])
  have s4: "has_shape ?p1 ?n ?n" by (rule has_shape_grid_map2 [OF s1 s2])
  have s5: "has_shape ?p2 ?n ?n" by (rule has_shape_grid_map2 [OF s2 s1])
  have zv: "\<forall>i<?n. \<forall>j<?n. ?z ! i ! j = f (?g1 ! i ! j, ?g2 ! i ! j)"
    using xd(2) yd(2) by simp
  have many: "2 \<le> ptnum \<longrightarrow>
         (\<forall>i<?n. \<forall>j<?n. ?g1 ! i ! j = axis_node ?xs ?n j \<and> ?g2 ! i ! j = axis_node ?ys ?n i) \<and>
         axis_node ?xs ?n 0 = Some (Min (set ?xs)) \<and>
         axis_node ?xs ?n (?n - 1) = Some (Max (set ?xs)) \<and>
         axis_node ?ys ?n 0 = Some (Min (set ?ys)) \<and>
         axis_node ?ys ?n (?n - 1) = Some (Max (set ?ys))"
  proof
    assume p: "2 \<le> ptnum"
    then have nz: "real (?n - 1) \<noteq> 0" by simp
    have nodes: "\<forall>i<?n. \<forall>j<?n. ?g1 ! i ! j = axis_node ?xs ?n j \<and> ?g2 ! i ! j = axis_node ?ys ?n i"
      using xd(2,4) yd(2,4) p by simp
    have ends: "\<And>zs. axis_node zs ?n 0 = Some (Min (set zs))"
      "\<And>zs. axis_node zs ?n (?n - 1) = Some (Max (set zs))"
      using nz by (simp_all add: axis_node_def del: of_nat_diff)
    show "(\<forall>i<?n. \<forall>j<?n. ?g1 ! i ! j = axis_node ?xs ?n j \<and> ?g2 ! i ! j = axis_node ?ys ?n i) \<and>
         axis_node ?xs ?n 0 = Some (Min (set ?xs)) \<and>
         axis_node ?xs ?n (?n - 1) = Some (Max (set ?xs)) \<and>
         axis_node ?ys ?n 0 = Some (Min (set ?ys)) \<and>
         axis_node ?ys ?n (?n - 1) = Some (Max (set ?ys))"
      using nodes ends by simp
  qed
  have one: "ptnum = 1 \<longrightarrow> ?g1 = [[Some (Min (set ?xs))]] \<and> ?g2 = [[Some (Min (set ?ys))]]"
    using xd(3) yd(3) by simp
  show ?thesis
    by (intro exI conjI) (rule cart pol s1 s2 s3 s4 s5 zv many one)+
qed


text \<open>
  Claim C7 as stated fails at \<open>ptnum = 1\<close>: the samples have abscissae and ordinates from
  0 to 1, and the mesh is the single node \<open>(0, 0)\<close>, which does not span the bounding box.
\<close>

theorem interp_grid_mesh_counterexample:
  "cartesian unit_samples = Inr ([Some 0, Some 1, Some 0], [Some 0, Some 0, Some 1]) \<and>
   interp_grid rbf_fit_3 unit_samples False 1 = Inr ([[Some 0]], [[Some 0]], [[Some 5]])"
  by (simp add: unit_samples_def grid_defs)

text \<open>
  The theorem at the three samples with \<open>ptnum = 2\<close>.
\<close>

theorem interp_grid_mesh_witness:
  "\<exists>g1 g2 z p1 p2.
      interp_grid rbf_fit_3 unit_samples False 2 = Inr (g1, g2, z) \<and>
      interp_grid rbf_fit_3 unit_samples True 2 = Inr (p1, p2, z) \<and>
      has_shape g1 2 2 \<and> has_shape g2 2 2 \<and> has_shape z 2 2 \<and>
      has_shape p1 2 2 \<and> has_shape p2 2 2 \<and>
      g1 ! 0 ! 0 = Some 0 \<and> g1 ! 0 ! 1 = Some 1 \<and> g2 ! 0 ! 1 = Some 0 \<and> g2 ! 1 ! 0 = Some 1"
proof -
  let ?rs = "[0, 1, 1] :: real list" and ?ts = "[0, 0, pi / 2] :: real list"
  let ?f = "\<lambda>(qx, qy). fl2 (+) (Some 5)
               (fl2 (+) (fl2 (*) (Some 3) (fl2 (-) qx (Some 0)))
                        (fl2 (*) (Some 4) (fl2 (-) qy (Some 0))))"
  have cx: "cart_x ?rs ?ts = [0, 1, 0]" and cy: "cart_y ?rs ?ts = [0, 0, 1]"
    by (simp_all add: cart_x_def cart_y_def)
  have h1: "rad_arr unit_samples = map Some ?rs" by (simp add: unit_samples_def)
  have h2: "theta_arr unit_samples = map Some ?ts" by (simp add: unit_samples_def)
  have h3: "length ?rs = length ?ts" by simp
  have h4: "?rs \<noteq> []" by simp
  have h5: "rbf_fit_3 (zip (map Some (cart_x ?rs ?ts)) (map Some (cart_y ?rs ?ts)))
              (thick_arr unit_samples) = Some ?f"
    unfolding cx cy by (simp add: unit_samples_def)
  have h6: "(1::int) \<le> 2" by simp
  have n0: "axis_node [0, 1, 0] 2 0 = Some 0" and n1: "axis_node [0, 1, 0] 2 1 = Some 1"
    by (simp_all add: axis_node_def)
  from interp_grid_mesh [where m = unit_samples and rs = ?rs and ts = ?ts and fit = rbf_fit_3
      and f = ?f and ptnum = 2, OF h1 h2 h3 h4 h5 h6] obtain g1 g2 z p1 p2 where
    a: "interp_grid rbf_fit_3 unit_samples False 2 = Inr (g1, g2, z)"
    and b: "interp_grid rbf_fit_3 unit_samples True 2 = Inr (p1, p2, z)"
    and s: "has_shape g1 (nat 2) (nat 2)" "has_shape g2 (nat 2) (nat 2)"
      "has_shape z (nat 2) (nat 2)" "has_shape p1 (nat 2) (nat 2)" "has_shape p2 (nat 2) (nat 2)"
    and nodes: "(2::int) \<le> 2 \<longrightarrow>
         (\<forall>i<nat 2. \<forall>j<nat 2.
            g1 ! i ! j = axis_node (cart_x ?rs ?ts) (nat 2) j \<and>
            g2 ! i ! j = axis_node (cart_y ?rs ?ts) (nat 2) i) \<and>
         axis_node (cart_x ?rs ?ts) (nat 2) 0 = Some (Min (set (cart_x ?rs ?ts))) \<and>
         axis_node (cart_x ?rs ?ts) (nat 2) (nat 2 - 1) = Some (Max (set (cart_x ?rs ?ts))) \<and>
         axis_node (cart_y ?rs ?ts) (nat 2) 0 = Some (Min (set (cart_y ?rs ?ts))) \<and>
         axis_node (cart_y ?rs ?ts) (nat 2) (nat 2 - 1) = Some (Max (set (cart_y ?rs ?ts)))"
    by (elim exE conjE)
  have nd: "\<And>i j. i < 2 \<Longrightarrow> j < 2 \<Longrightarrow>
      g1 ! i ! j = axis_node [0, 1, 0] 2 j \<and> g2 ! i ! j = axis_node [0, 0, 1] 2 i"
    using nodes unfolding cx cy by simp
  have "g1 ! 0 ! 0 = Some 0" "g1 ! 0 ! 1 = Some 1" "g2 ! 0 ! 1 = Some 0" "g2 ! 1 ! 0 = Some 1"
    using nd [of 0 0] nd [of 0 1] nd [of 1 0] by (simp_all add: axis_node_def)
  then show ?thesis using a b s by simp
qed

section \<open>The polar coordinates of the mesh\<close>

lemma arctan2_range: "- pi < arctan2 y x \<and> arctan2 y x \<le> pi"
proof -
  have b: "- (pi / 2) < arctan (y / x)" "arctan (y / x) < pi / 2"
    by (rule arctan_lbound, rule arctan_ubound)
  have p: "0 < pi" by (rule pi_gt_zero)
  consider "x > 0" | "x < 0" "y \<ge> 0" | "x < 0" "y < 0" | "x = 0"
    by linarith
  then show ?thesis
  proof cases
    case 1
    then show ?thesis using b p by (simp add: arctan2_def)
  next
    case 2
    then have "y / x \<le> 0" by (simp add: divide_nonneg_neg)
    then have "arctan (y / x) \<le> 0" by (simp add: arctan_le_zero_iff)
    then show ?thesis using 2 b p by (simp add: arctan2_def)
  next
    case 3
    then have "0 < y / x" by (simp add: divide_neg_neg)
    then have "0 < arctan (y / x)" by (simp add: zero_less_arctan_iff)
    then show ?thesis using 3 b p by (simp add: arctan2_def)
  next
    case 4
    have "arctan2 y x = pi / 2 \<or> arctan2 y x = - pi / 2 \<or> arctan2 y x = 0"
      using 4 by (simp add: arctan2_def)
    then show ?thesis using p by linarith
  qed
qed

lemma sqrt_sum_pos:
  assumes "x \<noteq> 0"
  shows "sqrt (x\<^sup>2 + y\<^sup>2) = \<bar>x\<bar> * sqrt (1 + (y / x)\<^sup>2)"
proof -
  have "x\<^sup>2 + y\<^sup>2 = x\<^sup>2 * (1 + (y / x)\<^sup>2)"
    using assms by (simp add: field_simps power2_eq_square)
  then show ?thesis by (simp add: real_sqrt_mult)
qed

lemma arctan_polar:
  assumes "x \<noteq> 0"
  shows "sqrt (x\<^sup>2 + y\<^sup>2) * cos (arctan (y / x)) = \<bar>x\<bar>"
    and "sqrt (x\<^sup>2 + y\<^sup>2) * sin (arctan (y / x)) = \<bar>x\<bar> * (y / x)"
proof -
  have pos: "sqrt (1 + (y / x)\<^sup>2) \<noteq> 0"
    by (metis add_nonneg_eq_0_iff real_sqrt_eq_zero_cancel_iff zero_le_power2 zero_neq_one zero_le_one)
  show "sqrt (x\<^sup>2 + y\<^sup>2) * cos (arctan (y / x)) = \<bar>x\<bar>"
    unfolding sqrt_sum_pos [OF assms] cos_arctan using pos by simp
  show "sqrt (x\<^sup>2 + y\<^sup>2) * sin (arctan (y / x)) = \<bar>x\<bar> * (y / x)"
    unfolding sqrt_sum_pos [OF assms] sin_arctan using pos by simp
qed

lemma arctan2_polar:
  "x = sqrt (x\<^sup>2 + y\<^sup>2) * cos (arctan2 y x) \<and> y = sqrt (x\<^sup>2 + y\<^sup>2) * sin (arctan2 y x)"
proof -
  consider "x > 0" | "x < 0" "y \<ge> 0" | "x < 0" "y < 0" | "x = 0" "y > 0" | "x = 0" "y < 0"
    | "x = 0" "y = 0"
    by linarith
  then show ?thesis
  proof cases
    case 1
    then have "x \<noteq> 0" by simp
    from arctan_polar [OF this, of y] show ?thesis using 1 by (simp add: arctan2_def)
  next
    case 2
    then have "x \<noteq> 0" by simp
    from arctan_polar [OF this, of y] show ?thesis using 2 by (simp add: arctan2_def)
  next
    case 3
    then have "x \<noteq> 0" by simp
    from arctan_polar [OF this, of y] show ?thesis using 3 by (simp add: arctan2_def)
  next
    case 4
    then show ?thesis by (simp add: arctan2_def)
  next
    case 5
    then show ?thesis by (simp add: arctan2_def)
  next
    case 6
    then show ?thesis by (simp add: arctan2_def)
  qed
qed


lemma unit_samples_polar:
  "interp_grid rbf_fit_3 unit_samples True 2 =
     Inr ([[Some 0, Some 1], [Some 1, Some (sqrt 2)]],
          [[Some 0, Some 0], [Some (pi / 2), Some (pi / 4)]],
          [[Some 5, Some 8], [Some 9, Some 12]])"
  by (simp add: unit_samples_def grid_defs upt_rec numeral_2_eq_2 arctan_one)

lemma grid_map2_nth:
  assumes "i < length yd" "j < length xd"
  shows "grid_map2 f (replicate (length yd) xd) (map (\<lambda>v. replicate (length xd) v) yd) ! i ! j
           = f (xd ! j) (yd ! i)"
    and "grid_map2 f (map (\<lambda>v. replicate (length xd) v) yd) (replicate (length yd) xd) ! i ! j
           = f (yd ! i) (xd ! j)"
  using assms by (simp_all add: grid_map2_def)

lemma interp_grid_polar_of_cartesian:
  assumes "interp_grid fit m True ptnum = Inr (p1, p2, z)"
  shows "\<exists>xd yd. interp_grid fit m False ptnum =
            Inr (replicate (length yd) xd, map (\<lambda>v. replicate (length xd) v) yd, z) \<and>
          p1 = grid_map2 polar_r (replicate (length yd) xd) (map (\<lambda>v. replicate (length xd) v) yd) \<and>
          p2 = grid_map2 np_arctan2 (map (\<lambda>v. replicate (length xd) v) yd) (replicate (length yd) xd)"
proof -
  obtain x y where c: "cartesian m = Inr (x, y)"
    using assms by (auto simp: interp_grid_def split: sum.splits)
  obtain f where f: "fit (zip x y) (thick_arr m) = Some f"
    using assms c by (auto simp: interp_grid_def split: option.splits)
  obtain xd where xd: "dense_axis x ptnum = Inr xd"
    using assms c f by (auto simp: interp_grid_def split: sum.splits)
  obtain yd where yd: "dense_axis y ptnum = Inr yd"
    using assms c f xd by (auto simp: interp_grid_def split: sum.splits)
  have "interp_grid fit m False ptnum =
          Inr (replicate (length yd) xd, map (\<lambda>v. replicate (length xd) v) yd, z) \<and>
        p1 = grid_map2 polar_r (replicate (length yd) xd) (map (\<lambda>v. replicate (length xd) v) yd) \<and>
        p2 = grid_map2 np_arctan2 (map (\<lambda>v. replicate (length xd) v) yd) (replicate (length yd) xd)"
    using assms c f xd yd by (simp add: interp_grid_def np_meshgrid_def)
  then show ?thesis by blast
qed

text \<open>
  Claim C6.  When \<open>interp_grid\<close> returns with the polar flag set, it also returns with
  the flag cleared, with the same values, and the two coordinate arrays of the polar mode
  have at every node the radius \<open>sqrt (x\<^sup>2 + y\<^sup>2)\<close> and the angle \<open>arctan2 y x\<close> of the node
  \<open>(x, y)\<close> of the Cartesian mesh.  The angle lies in the interval from \<open>-\<pi>\<close>, excluded,
  to \<open>\<pi>\<close>, included, and with the radius it gives the node back.  The node \<open>(1, 0)\<close> has
  radius 1 and angle 0, the node \<open>(0, 1)\<close> radius 1 and angle \<open>\<pi>/2\<close>.
\<close>

theorem polar_output_transform:
  "(\<forall>p1 p2 z. interp_grid fit m True ptnum = Inr (p1, p2, z) \<longrightarrow>
      (\<exists>xg yg. interp_grid fit m False ptnum = Inr (xg, yg, z) \<and>
         length p1 = length xg \<and> length p2 = length xg \<and> length yg = length xg \<and>
         (\<forall>i<length xg.
            length (p1 ! i) = length (xg ! i) \<and> length (p2 ! i) = length (xg ! i) \<and>
            length (yg ! i) = length (xg ! i) \<and>
            (\<forall>j<length (xg ! i).
               p1 ! i ! j = polar_r (xg ! i ! j) (yg ! i ! j) \<and>
               p2 ! i ! j = np_arctan2 (yg ! i ! j) (xg ! i ! j))))) \<and>
   (\<forall>x y. polar_r (Some x) (Some y) = Some (sqrt (x\<^sup>2 + y\<^sup>2)) \<and>
          np_arctan2 (Some y) (Some x) = Some (arctan2 y x) \<and>
          - pi < arctan2 y x \<and> arctan2 y x \<le> pi \<and>
          x = sqrt (x\<^sup>2 + y\<^sup>2) * cos (arctan2 y x) \<and>
          y = sqrt (x\<^sup>2 + y\<^sup>2) * sin (arctan2 y x)) \<and>
   polar_r (Some 1) (Some 0) = Some 1 \<and> np_arctan2 (Some 0) (Some 1) = Some 0 \<and>
   polar_r (Some 0) (Some 1) = Some 1 \<and> np_arctan2 (Some 1) (Some 0) = Some (pi / 2)"
proof (intro conjI allI impI)
  fix p1 p2 z
  assume "interp_grid fit m True ptnum = Inr (p1, p2, z)"
  from interp_grid_polar_of_cartesian [OF this] obtain xd yd where
    c: "interp_grid fit m False ptnum =
          Inr (replicate (length yd) xd, map (\<lambda>v. replicate (length xd) v) yd, z)"
    and p1: "p1 = grid_map2 polar_r (replicate (length yd) xd) (map (\<lambda>v. replicate (length xd) v) yd)"
    and p2: "p2 = grid_map2 np_arctan2 (map (\<lambda>v. replicate (length xd) v) yd) (replicate (length yd) xd)"
    by (elim exE conjE)
  let ?xg = "replicate (length yd) xd" and ?yg = "map (\<lambda>v. replicate (length xd) v) yd"
  have l: "length p1 = length ?xg" "length p2 = length ?xg" "length ?yg = length ?xg"
    unfolding p1 p2 by (simp_all add: grid_map2_def)
  have e: "\<forall>i<length ?xg.
            length (p1 ! i) = length (?xg ! i) \<and> length (p2 ! i) = length (?xg ! i) \<and>
            length (?yg ! i) = length (?xg ! i) \<and>
            (\<forall>j<length (?xg ! i).
               p1 ! i ! j = polar_r (?xg ! i ! j) (?yg ! i ! j) \<and>
               p2 ! i ! j = np_arctan2 (?yg ! i ! j) (?xg ! i ! j))"
    unfolding p1 p2 by (simp add: grid_map2_def)
  show "\<exists>xg yg. interp_grid fit m False ptnum = Inr (xg, yg, z) \<and>
         length p1 = length xg \<and> length p2 = length xg \<and> length yg = length xg \<and>
         (\<forall>i<length xg.
            length (p1 ! i) = length (xg ! i) \<and> length (p2 ! i) = length (xg ! i) \<and>
            length (yg ! i) = length (xg ! i) \<and>
            (\<forall>j<length (xg ! i).
               p1 ! i ! j = polar_r (xg ! i ! j) (yg ! i ! j) \<and>
               p2 ! i ! j = np_arctan2 (yg ! i ! j) (xg ! i ! j)))"
    by (intro exI conjI) (rule c l e)+
next
  fix x y :: real
  show "polar_r (Some x) (Some y) = Some (sqrt (x\<^sup>2 + y\<^sup>2))"
    by (simp add: polar_r_def fl1_def fl2_def)
  show "np_arctan2 (Some y) (Some x) = Some (arctan2 y x)"
    by (simp add: np_arctan2_def fl2_def)
  show "- pi < arctan2 y x" "arctan2 y x \<le> pi"
    using arctan2_range [of y x] by simp_all
  show "x = sqrt (x\<^sup>2 + y\<^sup>2) * cos (arctan2 y x)" "y = sqrt (x\<^sup>2 + y\<^sup>2) * sin (arctan2 y x)"
    using arctan2_polar [of x y] by simp_all
next
  show "polar_r (Some 1) (Some 0) = Some 1" "polar_r (Some 0) (Some 1) = Some 1"
    by (simp_all add: polar_r_def fl1_def fl2_def)
  show "np_arctan2 (Some 0) (Some 1) = Some 0" "np_arctan2 (Some 1) (Some 0) = Some (pi / 2)"
    by (simp_all add: np_arctan2_def arctan2_def fl2_def)
qed

text \<open>
  The theorem at the three samples with \<open>ptnum = 2\<close>, whose mesh has the nodes \<open>(1, 0)\<close>
  and \<open>(0, 1)\<close>.
\<close>

theorem polar_output_transform_witness:
  "\<exists>xg yg. interp_grid rbf_fit_3 unit_samples False 2 =
       Inr (xg, yg, [[Some 5, Some 8], [Some 9, Some 12]]) \<and>
     polar_r (xg ! 0 ! 1) (yg ! 0 ! 1) = Some 1 \<and>
     np_arctan2 (yg ! 0 ! 1) (xg ! 0 ! 1) = Some 0 \<and>
     polar_r (xg ! 1 ! 0) (yg ! 1 ! 0) = Some 1 \<and>
     np_arctan2 (yg ! 1 ! 0) (xg ! 1 ! 0) = Some (pi / 2)"
proof -
  let ?p1 = "[[Some 0, Some 1], [Some 1, Some (sqrt 2)]] :: npfloat list list"
  let ?p2 = "[[Some 0, Some 0], [Some (pi / 2), Some (pi / 4)]] :: npfloat list list"
  let ?z = "[[Some 5, Some 8], [Some 9, Some 12]] :: npfloat list list"
  from polar_output_transform [of rbf_fit_3 unit_samples 2, THEN conjunct1, rule_format,
      OF unit_samples_polar]
  obtain xg yg where
    c: "interp_grid rbf_fit_3 unit_samples False 2 = Inr (xg, yg, ?z)"
    and l: "length ?p1 = length xg"
    and e: "\<forall>i<length xg.
            length (?p1 ! i) = length (xg ! i) \<and> length (?p2 ! i) = length (xg ! i) \<and>
            length (yg ! i) = length (xg ! i) \<and>
            (\<forall>j<length (xg ! i).
               ?p1 ! i ! j = polar_r (xg ! i ! j) (yg ! i ! j) \<and>
               ?p2 ! i ! j = np_arctan2 (yg ! i ! j) (xg ! i ! j))"
    by (elim exE conjE)
  have n: "length xg = 2" using l by simp
  have r0: "length (xg ! 0) = 2" using e [rule_format, of 0] n by simp
  have r1: "length (xg ! 1) = 2" using e [rule_format, of 1] n by simp
  have ne: "xg ! 0 \<noteq> []" "xg ! 1 \<noteq> []" using r0 r1 by auto
  have a: "?p1 ! 0 ! 1 = polar_r (xg ! 0 ! 1) (yg ! 0 ! 1) \<and>
           ?p2 ! 0 ! 1 = np_arctan2 (yg ! 0 ! 1) (xg ! 0 ! 1)"
    using e [rule_format, of 0, THEN conjunct2, THEN conjunct2, THEN conjunct2, rule_format, of 1]
      n r0 ne by simp
  have b: "?p1 ! 1 ! 0 = polar_r (xg ! 1 ! 0) (yg ! 1 ! 0) \<and>
           ?p2 ! 1 ! 0 = np_arctan2 (yg ! 1 ! 0) (xg ! 1 ! 0)"
    using e [rule_format, of 1, THEN conjunct2, THEN conjunct2, THEN conjunct2, rule_format, of 0]
      n r1 ne by simp
  show ?thesis using c a b by auto
qed

end
